theory Spec2Isabelle
  imports Complex_Main "HOL-Library.Sublist"
begin

section \<open>Python strings\<close>

text \<open>
  A Python \<open>str\<close> is a sequence of Unicode code points, so it is modelled as a list of
  natural numbers. \<open>u\<close> turns an ASCII literal into such a list; the Chinese literals of
  \<open>audio_converter.py\<close> are written as their code points.
\<close>

type_synonym pystr = "nat list"

definition u :: "string \<Rightarrow> pystr" where
  "u s = map of_char s"

text \<open>\<open>needle in haystack\<close> on strings: the needle occurs as a contiguous run.\<close>

fun py_in :: "pystr \<Rightarrow> pystr \<Rightarrow> bool" where
  "py_in needle [] = (needle = [])"
| "py_in needle (c # cs) = (prefix needle (c # cs) \<or> py_in needle cs)"

text \<open>
  \<open>s.split(sep)\<close> for a one-character separator. The result is never empty, so the first
  case of the inner distinction is never taken.
\<close>

fun py_split :: "nat \<Rightarrow> pystr \<Rightarrow> pystr list" where
  "py_split sep [] = [[]]"
| "py_split sep (c # cs) =
     (if c = sep then [] # py_split sep cs
      else (case py_split sep cs of
              [] \<Rightarrow> [[c]]
            | l # ls \<Rightarrow> (c # l) # ls))"

text \<open>The code points for which \<open>str.isspace\<close> holds; \<open>str.strip()\<close> removes them.\<close>

definition is_space :: "nat \<Rightarrow> bool" where
  "is_space c = (c \<in> set [9, 10, 11, 12, 13, 28, 29, 30, 31, 32, 133, 160, 5760,
      8192, 8193, 8194, 8195, 8196, 8197, 8198, 8199, 8200, 8201, 8202,
      8232, 8233, 8239, 8287, 12288])"

definition py_strip :: "pystr \<Rightarrow> pystr" where
  "py_strip s = rev (dropWhile is_space (rev (dropWhile is_space s)))"

text \<open>
  \<open>str.lower()\<close> is only ever used for the test \<open>'ffmpeg' not in line.lower()\<close>. The model
  lowers the ASCII capitals and leaves every other code point alone. The only other code
  points that Python lowers to something containing an ASCII letter are U+0130 (to \<open>i\<close> and
  a combining dot) and U+212A (to \<open>k\<close>); neither letter occurs in \<open>ffmpeg\<close>, so the test has
  the same result.
\<close>

definition lower_cp :: "nat \<Rightarrow> nat" where
  "lower_cp c = (if 65 \<le> c \<and> c \<le> 90 then c + 32 else c)"

definition py_lower :: "pystr \<Rightarrow> pystr" where
  "py_lower s = map lower_cp s"

text \<open>\<open>s.rfind(c)\<close>: the last index of \<open>c\<close>, or \<open>-1\<close>.\<close>

fun py_rfind :: "nat \<Rightarrow> pystr \<Rightarrow> int" where
  "py_rfind c [] = -1"
| "py_rfind c (x # xs) =
     (if py_rfind c xs \<noteq> -1 then py_rfind c xs + 1
      else if x = c then 0 else -1)"

section \<open>Paths\<close>

text \<open>
  \<open>os.path.join\<close> and \<open>pathlib.Path\<close> are modelled in their POSIX flavour
  (\<open>posixpath.join\<close> with two arguments, \<open>PurePosixPath.name\<close> and \<open>.stem\<close> as in
  Python 3.11 to 3.13): a path is split at \<open>/\<close>, empty components and \<open>.\<close> are dropped, the
  name is the last remaining component, and the stem is the name up to its last dot unless
  that dot is the first or the last character.
\<close>

definition os_path_join :: "pystr \<Rightarrow> pystr \<Rightarrow> pystr" where
  "os_path_join a b =
     (if prefix (u ''/'') b then b
      else if a = [] \<or> suffix (u ''/'') a then a @ b
      else a @ u ''/'' @ b)"

definition path_name :: "pystr \<Rightarrow> pystr" where
  "path_name p =
     (case filter (\<lambda>x. x \<noteq> [] \<and> x \<noteq> u ''.'') (py_split 47 p) of
        [] \<Rightarrow> []
      | x # xs \<Rightarrow> last (x # xs))"

definition path_stem :: "pystr \<Rightarrow> pystr" where
  "path_stem p =
     (let name = path_name p; i = py_rfind 46 name
      in if 0 < i \<and> i < int (length name) - 1 then take (nat i) name else name)"

section \<open>Options read from the form\<close>

text \<open>
  The fields of \<open>AudioConverterApp\<close> that \<open>convert_file\<close> and \<open>conversion_worker\<close> read:
  \<open>self.output_dir\<close>, \<open>self.output_format_var.get()\<close>, \<open>self.quality_var.get()\<close> and
  \<open>self.delete_original_var.get()\<close>.
\<close>

record settings =
  output_dir :: pystr
  output_format :: pystr
  quality :: pystr
  delete_original :: bool

text \<open>Line 186: the formats that the format box offers.\<close>

definition supported_formats :: "pystr list" where
  "supported_formats =
     [u ''mp3'', u ''flac'', u ''wav'', u ''ogg'', u ''m4a'', u ''aac'', u ''wma'']"

text \<open>The three keywords that \<open>convert_file\<close> looks for in the quality label.\<close>

definition kw_high :: pystr where
  "kw_high = [39640, 36136, 37327]"

definition kw_medium :: pystr where
  "kw_medium = [20013, 31561, 36136, 37327]"

definition kw_lossless :: pystr where
  "kw_lossless = [26080, 25439]"

text \<open>
  The quality labels that \<open>on_format_change\<close> puts into the quality box. Each starts with
  the Chinese for high, medium, low, lossless or standard quality.
\<close>

definition label_high_192 :: pystr where
  "label_high_192 = kw_high @ u '' (192 kbps)''"

definition label_medium_128 :: pystr where
  "label_medium_128 = kw_medium @ u '' (128 kbps)''"

definition label_low_64 :: pystr where
  "label_low_64 = [20302, 36136, 37327] @ u '' (64 kbps)''"

definition label_high_256 :: pystr where
  "label_high_256 = kw_high @ u '' (256 kbps)''"

definition label_medium_192 :: pystr where
  "label_medium_192 = kw_medium @ u '' (192 kbps)''"

definition label_low_128 :: pystr where
  "label_low_128 = [20302, 36136, 37327] @ u '' (128 kbps)''"

definition label_lossless :: pystr where
  "label_lossless = kw_lossless @ u '' ('' @ [21407, 22987, 38899, 36136] @ u '')''"

definition label_high_48k :: pystr where
  "label_high_48k = kw_high @ u '' (48kHz)''"

definition label_standard_44k :: pystr where
  "label_standard_44k = [26631, 20934, 36136, 37327] @ u '' (44.1kHz)''"

text \<open>
  \<open>on_format_change\<close>: the values offered for a format, \<open>None\<close> where the method leaves the
  box as it is.
\<close>

definition quality_values :: "pystr \<Rightarrow> pystr list option" where
  "quality_values fmt =
     (if fmt \<in> set [u ''mp3'', u ''m4a'', u ''aac'', u ''wma''] then
        (if fmt = u ''mp3'' then Some [label_high_192, label_medium_128, label_low_64]
         else if fmt = u ''m4a'' then Some [label_high_256, label_medium_192, label_low_128]
         else if fmt = u ''aac'' then Some [label_high_192, label_medium_128, label_low_64]
         else Some [label_high_192, label_medium_128, label_low_64])
      else if fmt \<in> set [u ''flac'', u ''wav''] then
        Some [label_lossless, label_high_48k, label_standard_44k]
      else if fmt = u ''ogg'' then
        Some [label_high_256, label_medium_192, label_low_128]
      else None)"

section \<open>Building the encoder command\<close>

text \<open>Line 449 of \<open>convert_file\<close>: where the converted file goes.\<close>

definition output_file :: "settings \<Rightarrow> pystr \<Rightarrow> pystr" where
  "output_file cfg input_file =
     os_path_join (output_dir cfg) (path_stem input_file @ u ''.'' @ output_format cfg)"

text \<open>Lines 458 to 516: what each format appends to the command.\<close>

definition codec_args :: "pystr \<Rightarrow> pystr \<Rightarrow> pystr list" where
  "codec_args fmt q =
     (if fmt = u ''mp3'' then
        [u ''-codec:a'', u ''libmp3lame''] @
        (if py_in kw_high q then [u ''-b:a'', u ''192k'']
         else if py_in kw_medium q then [u ''-b:a'', u ''128k'']
         else [u ''-b:a'', u ''64k''])
      else if fmt = u ''flac'' then
        [u ''-codec:a'', u ''flac''] @
        (if \<not> py_in kw_lossless q then
           (if py_in kw_high q then [u ''-ar'', u ''48000''] else [u ''-ar'', u ''44100''])
         else [])
      else if fmt = u ''wav'' then
        [u ''-codec:a'', u ''pcm_s16le''] @
        (if \<not> py_in kw_lossless q then
           (if py_in kw_high q then [u ''-ar'', u ''48000''] else [u ''-ar'', u ''44100''])
         else [])
      else if fmt = u ''ogg'' then
        [u ''-codec:a'', u ''libvorbis''] @
        (if py_in kw_high q then [u ''-b:a'', u ''256k'']
         else if py_in kw_medium q then [u ''-b:a'', u ''192k'']
         else [u ''-b:a'', u ''128k''])
      else if fmt = u ''m4a'' then
        [u ''-vn''] @ [u ''-f'', u ''mov''] @ [u ''-codec:a'', u ''aac''] @
        (if py_in kw_high q then [u ''-b:a'', u ''256k'']
         else if py_in kw_medium q then [u ''-b:a'', u ''192k'']
         else [u ''-b:a'', u ''128k''])
      else if fmt = u ''aac'' then
        [u ''-codec:a'', u ''aac''] @
        (if py_in kw_high q then [u ''-b:a'', u ''192k'']
         else if py_in kw_medium q then [u ''-b:a'', u ''128k'']
         else [u ''-b:a'', u ''64k''])
      else if fmt = u ''wma'' then
        [u ''-codec:a'', u ''wmav2''] @
        (if py_in kw_high q then [u ''-b:a'', u ''192k'']
         else if py_in kw_medium q then [u ''-b:a'', u ''128k'']
         else [u ''-b:a'', u ''64k''])
      else [])"

text \<open>Lines 452 and 518: the fixed head of the command, the codec part, the output path.\<close>

definition build_cmd :: "settings \<Rightarrow> pystr \<Rightarrow> pystr list" where
  "build_cmd cfg input_file =
     [u ''ffmpeg'', u ''-y'', u ''-i'', input_file, u ''-vn''] @
     codec_args (output_format cfg) (quality cfg) @
     [output_file cfg input_file]"

section \<open>Running the encoder\<close>

text \<open>
  The arguments of \<open>subprocess.run\<close> (lines 550 to 566). The \<open>env\<close> argument, a copy of the
  process environment with a longer search path, is left out: nothing below depends on it.
  \<open>no_window\<close> stands for the \<open>startupinfo\<close> and \<open>creationflags\<close> of the Windows branch.
\<close>

record run_args =
  cmd :: "pystr list"
  capture_stdout :: bool
  capture_stderr :: bool
  timeout_seconds :: nat
  no_window :: bool

text \<open>
  What \<open>subprocess.run\<close> can do: return with an exit code and the captured standard error
  (already decoded, \<open>decode('utf-8', errors='ignore')\<close> never fails), raise
  \<open>TimeoutExpired\<close>, or raise any other exception, of which only \<open>str(e)\<close> is used.
\<close>

datatype proc_result =
    Completed int pystr
  | TimeoutExpired
  | Raised pystr

text \<open>
  Everything outside the program: the encoder, \<open>os.remove\<close> (\<open>None\<close> when it succeeds, the
  text of the exception otherwise), the flag \<open>self.is_converting\<close> as the worker reads it,
  \<open>os.access(self.output_dir, os.W_OK)\<close> and \<open>os.name == 'nt'\<close>. The first three take the
  index of the job, so that they may answer differently from one job to the next.
\<close>

record world =
  subprocess_run :: "nat \<Rightarrow> run_args \<Rightarrow> proc_result"
  os_remove :: "nat \<Rightarrow> pystr \<Rightarrow> pystr option"
  is_converting :: "nat \<Rightarrow> bool"
  output_dir_writable :: bool
  os_name_nt :: bool

text \<open>
  The second component of what \<open>convert_file\<close> returns with \<open>False\<close>. Each constructor
  stands for one message of the source, given by \<open>message_of\<close>.
\<close>

datatype reason =
    InvalidInputData
  | PermissionDenied
  | DiskFull
  | EncoderError pystr
  | UnknownFailure pystr
  | Timeout
  | UnexpectedError pystr

datatype outcome = Success pystr | Failure reason

definition message_of :: "reason \<Rightarrow> pystr" where
  "message_of r =
     (case r of
        InvalidInputData \<Rightarrow>
          [36755, 20837, 25991, 20214, 25968, 25454, 26080, 25928, 25110, 25439, 22351]
      | PermissionDenied \<Rightarrow>
          [26435, 38480, 34987, 25298, 32477, 65292, 26080, 27861, 20889, 20837, 25991, 20214]
      | DiskFull \<Rightarrow> [30913, 30424, 31354, 38388, 19981, 36275]
      | EncoderError line \<Rightarrow> u ''FFmpeg'' @ [38169, 35823] @ u '': '' @ line
      | UnknownFailure line \<Rightarrow> [36716, 25442, 22833, 36133] @ u '': '' @ line
      | Timeout \<Rightarrow> [36716, 25442, 36229, 26102]
      | UnexpectedError msg \<Rightarrow> [38169, 35823] @ u '': '' @ msg)"

definition result_of :: "outcome \<Rightarrow> bool \<times> pystr" where
  "result_of out = (case out of Success p \<Rightarrow> (True, p) | Failure r \<Rightarrow> (False, message_of r))"

datatype py_error = IndexError

text \<open>Lines 582 to 586: the loop over the lines of the error text.\<close>

fun find_error_line :: "pystr list \<Rightarrow> pystr option" where
  "find_error_line [] = None"
| "find_error_line (line # rest) =
     (if py_in (u ''Error'') line \<and> \<not> py_in (u ''ffmpeg'') (py_lower line) then Some line
      else find_error_line rest)"

text \<open>
  Line 591: the last line that is not blank, a fixed text when there is no error text at
  all. Indexing the empty list with \<open>-1\<close> raises \<open>IndexError\<close>.
\<close>

definition unknown_error_text :: pystr where
  "unknown_error_text = [26410, 30693, 38169, 35823]"

definition last_line :: "pystr \<Rightarrow> py_error + pystr" where
  "last_line error_msg =
     (if error_msg \<noteq> [] then
        (case filter (\<lambda>l. py_strip l \<noteq> []) (py_split 10 error_msg) of
           [] \<Rightarrow> Inl IndexError
         | l # ls \<Rightarrow> Inr (last (l # ls)))
      else Inr unknown_error_text)"

text \<open>Lines 572 to 592: the reason for a failure, from the error text.\<close>

definition classify_stderr :: "pystr \<Rightarrow> py_error + reason" where
  "classify_stderr error_msg =
     (if py_in (u ''Invalid data'') error_msg then Inr InvalidInputData
      else if py_in (u ''Permission denied'') error_msg then Inr PermissionDenied
      else if py_in (u ''No space left'') error_msg then Inr DiskFull
      else if py_in (u ''Error'') error_msg then
        (case find_error_line (py_split 10 error_msg) of
           Some line \<Rightarrow> Inr (EncoderError (py_strip line))
         | None \<Rightarrow> Inr (EncoderError (py_strip (last (py_split 10 error_msg)))))
      else
        (case last_line error_msg of
           Inl e \<Rightarrow> Inl e
         | Inr l \<Rightarrow> Inr (UnknownFailure l)))"

definition encoder_call :: "world \<Rightarrow> settings \<Rightarrow> pystr \<Rightarrow> run_args" where
  "encoder_call w cfg input_file =
     \<lparr>cmd = build_cmd cfg input_file, capture_stdout = True, capture_stderr = True,
      timeout_seconds = 300, no_window = os_name_nt w\<rparr>"

text \<open>
  \<open>convert_file\<close>, as job number \<open>i\<close>. The two handlers at the end of the method catch
  \<open>TimeoutExpired\<close> and every other exception, also the \<open>IndexError\<close> of line 591, whose text
  is \<open>list index out of range\<close>.
\<close>

definition convert_file :: "world \<Rightarrow> nat \<Rightarrow> settings \<Rightarrow> pystr \<Rightarrow> outcome" where
  "convert_file w i cfg input_file =
     (case subprocess_run w i (encoder_call w cfg input_file) of
        Completed returncode error_msg \<Rightarrow>
          (if returncode = 0 then Success (output_file cfg input_file)
           else
             (case classify_stderr error_msg of
                Inr r \<Rightarrow> Failure r
              | Inl IndexError \<Rightarrow> Failure (UnexpectedError (u ''list index out of range''))))
      | TimeoutExpired \<Rightarrow> Failure Timeout
      | Raised msg \<Rightarrow> Failure (UnexpectedError msg))"

section \<open>Binary floating point\<close>

text \<open>
  Line 681 computes \<open>((i + 1) / total_files) * 100\<close> in Python's \<open>float\<close>, which is
  IEEE 754 binary64: the quotient of the two integers is rounded once, correctly, to the
  nearest number with 53 significant bits, ties going to the even one, and the product of
  that number and 100 is rounded the same way. A number of this kind is written as a pair
  \<open>(m, s)\<close> that stands for \<open>m / 2 ^ s\<close>, or \<open>m * 2 ^ (- s)\<close> when \<open>s\<close> is negative.
  \<open>round_b64 a b\<close> is the pair nearest to \<open>a / b\<close>: the scale \<open>s\<close> is chosen so that
  \<open>a * 2 ^ s / b\<close> is at least \<open>2 ^ 52\<close> and less than \<open>2 ^ 53\<close>, and \<open>m\<close> is that number rounded.
  Overflow and subnormal numbers are not modelled; they cannot arise for an index and a
  length of a list, whose quotient is at most 1 and at least \<open>2 ^ (- 63)\<close>. Only numbers
  that are not negative occur.
\<close>

text \<open>\<open>int.bit_length\<close>: the number of binary digits.\<close>

fun bit_length :: "nat \<Rightarrow> nat" where
  "bit_length n = (if n = 0 then 0 else bit_length (n div 2) + 1)"

declare bit_length.simps [simp del]

text \<open>The integer nearest to \<open>num / den\<close>, the even one of two equally near.\<close>

definition round_half_even :: "nat \<Rightarrow> nat \<Rightarrow> nat" where
  "round_half_even num den =
     (if den < 2 * (num mod den) \<or> (2 * (num mod den) = den \<and> odd (num div den))
      then num div den + 1 else num div den)"

text \<open>
  The scale. With \<open>d\<close> the difference of the two bit lengths, \<open>a / b\<close> lies between
  \<open>2 ^ (d - 1)\<close> and \<open>2 ^ (d + 1)\<close>, so that \<open>a * 2 ^ (53 - d) / b\<close> lies between \<open>2 ^ 52\<close> and
  \<open>2 ^ 54\<close>; the scale is \<open>53 - d\<close>, or one less when that number reaches \<open>2 ^ 53\<close>. The test
  is written on natural numbers, a negative exponent moving to the other side.
\<close>

definition b64_scale :: "nat \<Rightarrow> nat \<Rightarrow> int" where
  "b64_scale a b =
     (if b * 2 ^ nat (int (bit_length a) - int (bit_length b) - 53) * 2 ^ 53
           \<le> a * 2 ^ nat (53 - (int (bit_length a) - int (bit_length b)))
      then 52 - (int (bit_length a) - int (bit_length b))
      else 53 - (int (bit_length a) - int (bit_length b)))"

definition round_b64 :: "nat \<Rightarrow> nat \<Rightarrow> nat \<times> int" where
  "round_b64 a b =
     (if a = 0 then (0, 0)
      else (round_half_even (a * 2 ^ nat (b64_scale a b)) (b * 2 ^ nat (- b64_scale a b)),
            b64_scale a b))"

text \<open>The exact value of a pair, as a rational number.\<close>

definition b64_value :: "nat \<times> int \<Rightarrow> rat" where
  "b64_value x = of_nat (fst x) * 2 ^ nat (- snd x) / 2 ^ nat (snd x)"

text \<open>\<open>a / b\<close> on two integers, and \<open>x * c\<close> on a float and an integer.\<close>

definition float_div :: "nat \<Rightarrow> nat \<Rightarrow> nat \<times> int" where
  "float_div a b = round_b64 a b"

definition float_mul :: "nat \<times> int \<Rightarrow> nat \<Rightarrow> nat \<times> int" where
  "float_mul x c = round_b64 (fst x * c * 2 ^ nat (- snd x)) (2 ^ nat (snd x))"

text \<open>Line 681, for \<open>k = i + 1\<close> and \<open>n = total_files\<close>.\<close>

definition progress_percent :: "nat \<Rightarrow> nat \<Rightarrow> rat" where
  "progress_percent k n = b64_value (float_mul (float_div k n) 100)"

section \<open>The worker\<close>

text \<open>
  What the worker does that can be seen from outside, in order: its log lines and the
  progress it sets. \<open>Job_started\<close> is line 657, \<open>Converted\<close> lines 666 and 667,
  \<open>Source_removed\<close> and \<open>Remove_failed\<close> lines 673 and 675, \<open>Job_failed\<close> line 678,
  \<open>Progress\<close> lines 681 to 683, \<open>Cancelled\<close> line 650, \<open>Not_writable\<close> lines 640 and 641,
  \<open>Run_started\<close> lines 631 to 636 and \<open>Finished\<close> lines 696 to 706. The percentage is the
  exact value of the binary64 number that line 681 computes.
\<close>

datatype event =
    Run_started nat
  | Not_writable
  | Cancelled
  | Job_started nat nat pystr
  | Converted pystr
  | Source_removed pystr
  | Remove_failed pystr pystr
  | Job_failed pystr reason
  | Progress nat nat rat
  | Finished nat "(pystr \<times> reason) list"

record run_state =
  converted_files :: nat
  failed_files :: "(pystr \<times> reason) list"
  events :: "event list"

definition log :: "event \<Rightarrow> run_state \<Rightarrow> run_state" where
  "log e st = st\<lparr>events := events st @ [e]\<rparr>"

text \<open>Lines 653 to 683: the body of the loop for one file.\<close>

definition process_job ::
  "world \<Rightarrow> settings \<Rightarrow> nat \<Rightarrow> nat \<Rightarrow> pystr \<Rightarrow> run_state \<Rightarrow> run_state" where
  "process_job w cfg total_files i input_file st =
     (let file_name = path_name input_file;
          st1 = log (Job_started (i + 1) total_files file_name) st;
          st2 =
            (case convert_file w i cfg input_file of
               Success message \<Rightarrow>
                 (let st3 = log (Converted message)
                              (st1\<lparr>converted_files := converted_files st1 + 1\<rparr>)
                  in if delete_original cfg then
                       (case os_remove w i input_file of
                          None \<Rightarrow> log (Source_removed input_file) st3
                        | Some e \<Rightarrow> log (Remove_failed input_file e) st3)
                     else st3)
             | Failure message \<Rightarrow>
                 log (Job_failed file_name message)
                   (st1\<lparr>failed_files := failed_files st1 @ [(file_name, message)]\<rparr>))
      in log (Progress (i + 1) total_files (progress_percent (i + 1) total_files)) st2)"

text \<open>Lines 648 to 651: the loop, which stops at the first job that finds the flag cleared.\<close>

fun worker_loop ::
  "world \<Rightarrow> settings \<Rightarrow> nat \<Rightarrow> nat \<Rightarrow> pystr list \<Rightarrow> run_state \<Rightarrow> run_state" where
  "worker_loop w cfg total_files i [] st = st"
| "worker_loop w cfg total_files i (input_file # rest) st =
     (if \<not> is_converting w i then log Cancelled st
      else worker_loop w cfg total_files (i + 1) rest
             (process_job w cfg total_files i input_file st))"

text \<open>\<open>conversion_worker\<close> over \<open>self.file_list\<close>.\<close>

definition conversion_worker :: "world \<Rightarrow> settings \<Rightarrow> pystr list \<Rightarrow> run_state" where
  "conversion_worker w cfg file_list =
     (let total_files = length file_list;
          st0 = \<lparr>converted_files = 0, failed_files = [], events = [Run_started total_files]\<rparr>
      in if \<not> output_dir_writable w then log Not_writable st0
         else
           (let st = worker_loop w cfg total_files 0 file_list st0
            in log (Finished (converted_files st) (failed_files st)) st))"

text \<open>What one job adds to the log: the body of the loop, run from an empty state.\<close>

definition job_events :: "world \<Rightarrow> settings \<Rightarrow> nat \<Rightarrow> nat \<Rightarrow> pystr \<Rightarrow> event list" where
  "job_events w cfg total_files i input_file =
     events (process_job w cfg total_files i input_file
               \<lparr>converted_files = 0, failed_files = [], events = []\<rparr>)"

text \<open>Lines 670 to 675: what the removal of the source adds to the log.\<close>

definition removal_events :: "world \<Rightarrow> settings \<Rightarrow> nat \<Rightarrow> pystr \<Rightarrow> event list" where
  "removal_events w cfg i input_file =
     (if delete_original cfg then
        (case os_remove w i input_file of
           None \<Rightarrow> [Source_removed input_file]
         | Some e \<Rightarrow> [Remove_failed input_file e])
      else [])"

text \<open>The outcomes and the percentages that a log reports, in the order of the log.\<close>

fun outcomes_of :: "event list \<Rightarrow> outcome list" where
  "outcomes_of [] = []"
| "outcomes_of (Converted p # es) = Success p # outcomes_of es"
| "outcomes_of (Job_failed n r # es) = Failure r # outcomes_of es"
| "outcomes_of (e # es) = outcomes_of es"

fun progress_of :: "event list \<Rightarrow> rat list" where
  "progress_of [] = []"
| "progress_of (Progress k n p # es) = p # progress_of es"
| "progress_of (e # es) = progress_of es"

section \<open>The profile table of the specification\<close>

text \<open>
  The quality tiers of the specification and its table of what each tier of each format
  asks of the encoder. \<open>tier_label\<close> is the label that the form offers for a tier, read off
  \<open>quality_values\<close>: lossy formats offer high, medium and low, \<open>flac\<close> and \<open>wav\<close> offer
  lossless, high and standard.
\<close>

datatype tier = High | Medium | Low | Lossless | Standard

definition tier_label :: "pystr \<Rightarrow> tier \<Rightarrow> pystr option" where
  "tier_label fmt t =
     (case quality_values fmt of
        None \<Rightarrow> None
      | Some vs \<Rightarrow>
          (if fmt = u ''flac'' \<or> fmt = u ''wav'' then
             (case t of
                Lossless \<Rightarrow> Some (vs ! 0)
              | High \<Rightarrow> Some (vs ! 1)
              | Standard \<Rightarrow> Some (vs ! 2)
              | _ \<Rightarrow> None)
           else
             (case t of
                High \<Rightarrow> Some (vs ! 0)
              | Medium \<Rightarrow> Some (vs ! 1)
              | Low \<Rightarrow> Some (vs ! 2)
              | _ \<Rightarrow> None)))"

definition spec_tier_flags :: "pystr \<Rightarrow> tier \<Rightarrow> pystr list option" where
  "spec_tier_flags fmt t =
     (if fmt = u ''mp3'' \<or> fmt = u ''aac'' \<or> fmt = u ''wma'' then
        (case t of
           High \<Rightarrow> Some [u ''-b:a'', u ''192k'']
         | Medium \<Rightarrow> Some [u ''-b:a'', u ''128k'']
         | Low \<Rightarrow> Some [u ''-b:a'', u ''64k'']
         | _ \<Rightarrow> None)
      else if fmt = u ''m4a'' \<or> fmt = u ''ogg'' then
        (case t of
           High \<Rightarrow> Some [u ''-b:a'', u ''256k'']
         | Medium \<Rightarrow> Some [u ''-b:a'', u ''192k'']
         | Low \<Rightarrow> Some [u ''-b:a'', u ''128k'']
         | _ \<Rightarrow> None)
      else if fmt = u ''flac'' \<or> fmt = u ''wav'' then
        (case t of
           Lossless \<Rightarrow> Some []
         | High \<Rightarrow> Some [u ''-ar'', u ''48000'']
         | Standard \<Rightarrow> Some [u ''-ar'', u ''44100'']
         | _ \<Rightarrow> None)
      else None)"

text \<open>The codec that the source names for each format, and the container it forces.\<close>

definition codec_name :: "pystr \<Rightarrow> pystr" where
  "codec_name fmt =
     (if fmt = u ''mp3'' then u ''libmp3lame''
      else if fmt = u ''flac'' then u ''flac''
      else if fmt = u ''wav'' then u ''pcm_s16le''
      else if fmt = u ''ogg'' then u ''libvorbis''
      else if fmt = u ''wma'' then u ''wmav2''
      else u ''aac'')"

definition container_flags :: "pystr \<Rightarrow> pystr list" where
  "container_flags fmt = (if fmt = u ''m4a'' then [u ''-vn'', u ''-f'', u ''mov''] else [])"

text \<open>What each format does with a label that has none of the keywords it looks for.\<close>

definition fallback_flags :: "pystr \<Rightarrow> pystr list" where
  "fallback_flags fmt =
     (if fmt = u ''mp3'' \<or> fmt = u ''aac'' \<or> fmt = u ''wma'' then [u ''-b:a'', u ''64k'']
      else if fmt = u ''m4a'' \<or> fmt = u ''ogg'' then [u ''-b:a'', u ''128k'']
      else [u ''-ar'', u ''44100''])"

section \<open>Sample inputs\<close>

text \<open>
  A configuration and a world for the instances below: output to \<open>out\<close> as \<open>mp3\<close> at the
  high tier, sources kept; an encoder that always exits with 0, a removal that always
  succeeds, a run that is never cancelled, on a POSIX system.
\<close>

definition sample_cfg :: settings where
  "sample_cfg =
     \<lparr>output_dir = u ''out'', output_format = u ''mp3'', quality = label_high_192,
      delete_original = False\<rparr>"

definition sample_world :: world where
  "sample_world =
     \<lparr>subprocess_run = (\<lambda>i a. Completed 0 []), os_remove = (\<lambda>i p. None),
      is_converting = (\<lambda>i. True), output_dir_writable = True, os_name_nt = False\<rparr>"

section \<open>The head of the command\<close>

text \<open>
  Claim C5. Whatever the input path, the output directory, the format and the quality
  label, the command starts with \<open>ffmpeg\<close>, the overwrite flag \<open>-y\<close>, the input flag
  \<open>-i\<close> with the input path, and \<open>-vn\<close>, which drops any video stream, in this order.
  For \<open>m4a\<close> the next arguments force the container with \<open>-f mov\<close>, a name that differs
  from the extension.
\<close>

theorem build_cmd_head:
  "take 5 (build_cmd cfg input_file) =
     [u ''ffmpeg'', u ''-y'', u ''-i'', input_file, u ''-vn'']
   \<and> take 3 (drop 5 (build_cmd (cfg\<lparr>output_format := u ''m4a''\<rparr>) input_file)) =
     [u ''-vn'', u ''-f'', u ''mov'']
   \<and> u ''mov'' \<noteq> u ''m4a''"
  by (simp add: build_cmd_def codec_args_def u_def)

section \<open>The quality flags\<close>

lemmas label_defs = kw_high_def kw_medium_def kw_lossless_def label_high_192_def
  label_medium_128_def label_low_64_def label_high_256_def label_medium_192_def
  label_low_128_def label_lossless_def label_high_48k_def label_standard_44k_def

lemma keyword_tests:
  "py_in kw_high label_high_192" "py_in kw_high label_high_256" "py_in kw_high label_high_48k"
  "\<not> py_in kw_high label_medium_128" "\<not> py_in kw_high label_medium_192"
  "\<not> py_in kw_high label_low_64" "\<not> py_in kw_high label_low_128"
  "\<not> py_in kw_high label_lossless" "\<not> py_in kw_high label_standard_44k"
  "py_in kw_medium label_medium_128" "py_in kw_medium label_medium_192"
  "\<not> py_in kw_medium label_high_192" "\<not> py_in kw_medium label_high_256"
  "\<not> py_in kw_medium label_high_48k"
  "\<not> py_in kw_medium label_low_64" "\<not> py_in kw_medium label_low_128"
  "\<not> py_in kw_medium label_lossless" "\<not> py_in kw_medium label_standard_44k"
  "py_in kw_lossless label_lossless"
  "\<not> py_in kw_lossless label_high_192" "\<not> py_in kw_lossless label_high_256"
  "\<not> py_in kw_lossless label_high_48k"
  "\<not> py_in kw_lossless label_medium_128" "\<not> py_in kw_lossless label_medium_192"
  "\<not> py_in kw_lossless label_low_64" "\<not> py_in kw_lossless label_low_128"
  "\<not> py_in kw_lossless label_standard_44k"
  by (simp_all add: label_defs u_def)

lemma format_literals:
  "u ''mp3'' = [109, 112, 51]" "u ''flac'' = [102, 108, 97, 99]" "u ''wav'' = [119, 97, 118]"
  "u ''ogg'' = [111, 103, 103]" "u ''m4a'' = [109, 52, 97]" "u ''aac'' = [97, 97, 99]"
  "u ''wma'' = [119, 109, 97]"
  by (simp_all add: u_def)


lemma quality_values_eval:
  "quality_values (u ''mp3'') = Some [label_high_192, label_medium_128, label_low_64]"
  "quality_values (u ''aac'') = Some [label_high_192, label_medium_128, label_low_64]"
  "quality_values (u ''wma'') = Some [label_high_192, label_medium_128, label_low_64]"
  "quality_values (u ''m4a'') = Some [label_high_256, label_medium_192, label_low_128]"
  "quality_values (u ''ogg'') = Some [label_high_256, label_medium_192, label_low_128]"
  "quality_values (u ''flac'') = Some [label_lossless, label_high_48k, label_standard_44k]"
  "quality_values (u ''wav'') = Some [label_lossless, label_high_48k, label_standard_44k]"
  by (simp_all add: quality_values_def format_literals)

lemma quality_values_formats:
  assumes "quality_values fmt \<noteq> None"
  obtains "fmt = u ''mp3''" | "fmt = u ''aac''" | "fmt = u ''wma''" | "fmt = u ''m4a''"
    | "fmt = u ''ogg''" | "fmt = u ''flac''" | "fmt = u ''wav''"
proof -
  have "fmt \<in> set [u ''mp3'', u ''m4a'', u ''aac'', u ''wma''] \<or>
        fmt \<in> set [u ''flac'', u ''wav''] \<or> fmt = u ''ogg''"
  proof (rule ccontr)
    assume "\<not> ?thesis"
    then have "quality_values fmt = None"
      by (simp add: quality_values_def)
    with assms show False by simp
  qed
  then show ?thesis using that by auto
qed

lemma codec_args_eval:
  "codec_args (u ''mp3'') q = [u ''-codec:a'', u ''libmp3lame''] @
     (if py_in kw_high q then [u ''-b:a'', u ''192k'']
      else if py_in kw_medium q then [u ''-b:a'', u ''128k''] else [u ''-b:a'', u ''64k''])"
  "codec_args (u ''aac'') q = [u ''-codec:a'', u ''aac''] @
     (if py_in kw_high q then [u ''-b:a'', u ''192k'']
      else if py_in kw_medium q then [u ''-b:a'', u ''128k''] else [u ''-b:a'', u ''64k''])"
  "codec_args (u ''wma'') q = [u ''-codec:a'', u ''wmav2''] @
     (if py_in kw_high q then [u ''-b:a'', u ''192k'']
      else if py_in kw_medium q then [u ''-b:a'', u ''128k''] else [u ''-b:a'', u ''64k''])"
  "codec_args (u ''m4a'') q = [u ''-vn'', u ''-f'', u ''mov'', u ''-codec:a'', u ''aac''] @
     (if py_in kw_high q then [u ''-b:a'', u ''256k'']
      else if py_in kw_medium q then [u ''-b:a'', u ''192k''] else [u ''-b:a'', u ''128k''])"
  "codec_args (u ''ogg'') q = [u ''-codec:a'', u ''libvorbis''] @
     (if py_in kw_high q then [u ''-b:a'', u ''256k'']
      else if py_in kw_medium q then [u ''-b:a'', u ''192k''] else [u ''-b:a'', u ''128k''])"
  "codec_args (u ''flac'') q = [u ''-codec:a'', u ''flac''] @
     (if py_in kw_lossless q then []
      else if py_in kw_high q then [u ''-ar'', u ''48000''] else [u ''-ar'', u ''44100''])"
  "codec_args (u ''wav'') q = [u ''-codec:a'', u ''pcm_s16le''] @
     (if py_in kw_lossless q then []
      else if py_in kw_high q then [u ''-ar'', u ''48000''] else [u ''-ar'', u ''44100''])"
  by (simp_all add: codec_args_def format_literals)

lemma table_eval:
  "container_flags (u ''mp3'') = []" "codec_name (u ''mp3'') = u ''libmp3lame''"
  "container_flags (u ''aac'') = []" "codec_name (u ''aac'') = u ''aac''"
  "container_flags (u ''wma'') = []" "codec_name (u ''wma'') = u ''wmav2''"
  "container_flags (u ''m4a'') = [u ''-vn'', u ''-f'', u ''mov'']" "codec_name (u ''m4a'') = u ''aac''"
  "container_flags (u ''ogg'') = []" "codec_name (u ''ogg'') = u ''libvorbis''"
  "container_flags (u ''flac'') = []" "codec_name (u ''flac'') = u ''flac''"
  "container_flags (u ''wav'') = []" "codec_name (u ''wav'') = u ''pcm_s16le''"
  by (simp_all add: container_flags_def codec_name_def format_literals)

lemma spec_tier_flags_eval:
  "spec_tier_flags (u ''mp3'') t = (case t of High \<Rightarrow> Some [u ''-b:a'', u ''192k'']
     | Medium \<Rightarrow> Some [u ''-b:a'', u ''128k''] | Low \<Rightarrow> Some [u ''-b:a'', u ''64k''] | _ \<Rightarrow> None)"
  "spec_tier_flags (u ''aac'') t = (case t of High \<Rightarrow> Some [u ''-b:a'', u ''192k'']
     | Medium \<Rightarrow> Some [u ''-b:a'', u ''128k''] | Low \<Rightarrow> Some [u ''-b:a'', u ''64k''] | _ \<Rightarrow> None)"
  "spec_tier_flags (u ''wma'') t = (case t of High \<Rightarrow> Some [u ''-b:a'', u ''192k'']
     | Medium \<Rightarrow> Some [u ''-b:a'', u ''128k''] | Low \<Rightarrow> Some [u ''-b:a'', u ''64k''] | _ \<Rightarrow> None)"
  "spec_tier_flags (u ''m4a'') t = (case t of High \<Rightarrow> Some [u ''-b:a'', u ''256k'']
     | Medium \<Rightarrow> Some [u ''-b:a'', u ''192k''] | Low \<Rightarrow> Some [u ''-b:a'', u ''128k''] | _ \<Rightarrow> None)"
  "spec_tier_flags (u ''ogg'') t = (case t of High \<Rightarrow> Some [u ''-b:a'', u ''256k'']
     | Medium \<Rightarrow> Some [u ''-b:a'', u ''192k''] | Low \<Rightarrow> Some [u ''-b:a'', u ''128k''] | _ \<Rightarrow> None)"
  "spec_tier_flags (u ''flac'') t = (case t of Lossless \<Rightarrow> Some []
     | High \<Rightarrow> Some [u ''-ar'', u ''48000''] | Standard \<Rightarrow> Some [u ''-ar'', u ''44100''] | _ \<Rightarrow> None)"
  "spec_tier_flags (u ''wav'') t = (case t of Lossless \<Rightarrow> Some []
     | High \<Rightarrow> Some [u ''-ar'', u ''48000''] | Standard \<Rightarrow> Some [u ''-ar'', u ''44100''] | _ \<Rightarrow> None)"
  by (simp_all add: spec_tier_flags_def format_literals)

lemma tier_label_eval:
  "tier_label (u ''mp3'') t = (case t of High \<Rightarrow> Some label_high_192
     | Medium \<Rightarrow> Some label_medium_128 | Low \<Rightarrow> Some label_low_64 | _ \<Rightarrow> None)"
  "tier_label (u ''aac'') t = (case t of High \<Rightarrow> Some label_high_192
     | Medium \<Rightarrow> Some label_medium_128 | Low \<Rightarrow> Some label_low_64 | _ \<Rightarrow> None)"
  "tier_label (u ''wma'') t = (case t of High \<Rightarrow> Some label_high_192
     | Medium \<Rightarrow> Some label_medium_128 | Low \<Rightarrow> Some label_low_64 | _ \<Rightarrow> None)"
  "tier_label (u ''m4a'') t = (case t of High \<Rightarrow> Some label_high_256
     | Medium \<Rightarrow> Some label_medium_192 | Low \<Rightarrow> Some label_low_128 | _ \<Rightarrow> None)"
  "tier_label (u ''ogg'') t = (case t of High \<Rightarrow> Some label_high_256
     | Medium \<Rightarrow> Some label_medium_192 | Low \<Rightarrow> Some label_low_128 | _ \<Rightarrow> None)"
  "tier_label (u ''flac'') t = (case t of Lossless \<Rightarrow> Some label_lossless
     | High \<Rightarrow> Some label_high_48k | Standard \<Rightarrow> Some label_standard_44k | _ \<Rightarrow> None)"
  "tier_label (u ''wav'') t = (case t of Lossless \<Rightarrow> Some label_lossless
     | High \<Rightarrow> Some label_high_48k | Standard \<Rightarrow> Some label_standard_44k | _ \<Rightarrow> None)"
  by (cases t; simp add: tier_label_def quality_values_eval; simp add: format_literals)+

lemma tier_label_formats:
  assumes "tier_label fmt t \<noteq> None"
  obtains "fmt = u ''mp3''" | "fmt = u ''aac''" | "fmt = u ''wma''" | "fmt = u ''m4a''"
    | "fmt = u ''ogg''" | "fmt = u ''flac''" | "fmt = u ''wav''"
proof -
  from assms have "quality_values fmt \<noteq> None"
    by (auto simp: tier_label_def split: option.splits)
  then show ?thesis by (rule quality_values_formats) (rule that, assumption)+
qed


lemma supported_formats_cases:
  assumes "fmt \<in> set supported_formats"
  obtains "fmt = u ''mp3''" | "fmt = u ''aac''" | "fmt = u ''wma''" | "fmt = u ''m4a''"
    | "fmt = u ''ogg''" | "fmt = u ''flac''" | "fmt = u ''wav''"
  using assms unfolding supported_formats_def by auto

lemma spec_tier_flags_formats:
  assumes "spec_tier_flags fmt t \<noteq> None"
  shows "fmt \<in> set supported_formats"
proof (rule ccontr)
  assume "fmt \<notin> set supported_formats"
  then have "spec_tier_flags fmt t = None"
    by (simp add: spec_tier_flags_def supported_formats_def)
  with assms show False by simp
qed

text \<open>
  Claim C3. For every format of the profile table and every tier the table gives it, the
  form offers a label for the tier, and with that label the command is the fixed head, the
  forced container (for \<open>m4a\<close> only), the codec, the flags of the table and the output
  path: \<open>-b:a\<close> with 192k, 128k, 64k for \<open>mp3\<close>, \<open>aac\<close> and \<open>wma\<close>, with 256k, 192k, 128k
  for \<open>m4a\<close> and \<open>ogg\<close>; for \<open>flac\<close> and \<open>wav\<close> nothing for the lossless tier and \<open>-ar\<close>
  with 48000 or 44100 for the other two, never a bitrate.
\<close>

theorem build_cmd_profile:
  assumes "spec_tier_flags (output_format cfg) t = Some fl"
  shows "\<exists>q. tier_label (output_format cfg) t = Some q \<and>
     build_cmd (cfg\<lparr>quality := q\<rparr>) input_file =
       [u ''ffmpeg'', u ''-y'', u ''-i'', input_file, u ''-vn''] @
       container_flags (output_format cfg) @
       [u ''-codec:a'', codec_name (output_format cfg)] @ fl @
       [output_file cfg input_file]"
proof -
  from assms have "output_format cfg \<in> set supported_formats"
    by (intro spec_tier_flags_formats [of _ t]) simp
  then show ?thesis
  proof (cases rule: supported_formats_cases)
    case 1
    with assms show ?thesis
      by (cases t) (auto simp: build_cmd_def output_file_def tier_label_eval spec_tier_flags_eval
          codec_args_eval table_eval keyword_tests)
  next
    case 2
    with assms show ?thesis
      by (cases t) (auto simp: build_cmd_def output_file_def tier_label_eval spec_tier_flags_eval
          codec_args_eval table_eval keyword_tests)
  next
    case 3
    with assms show ?thesis
      by (cases t) (auto simp: build_cmd_def output_file_def tier_label_eval spec_tier_flags_eval
          codec_args_eval table_eval keyword_tests)
  next
    case 4
    with assms show ?thesis
      by (cases t) (auto simp: build_cmd_def output_file_def tier_label_eval spec_tier_flags_eval
          codec_args_eval table_eval keyword_tests)
  next
    case 5
    with assms show ?thesis
      by (cases t) (auto simp: build_cmd_def output_file_def tier_label_eval spec_tier_flags_eval
          codec_args_eval table_eval keyword_tests)
  next
    case 6
    with assms show ?thesis
      by (cases t) (auto simp: build_cmd_def output_file_def tier_label_eval spec_tier_flags_eval
          codec_args_eval table_eval keyword_tests)
  next
    case 7
    with assms show ?thesis
      by (cases t) (auto simp: build_cmd_def output_file_def tier_label_eval spec_tier_flags_eval
          codec_args_eval table_eval keyword_tests)
  qed
qed

section \<open>Concrete paths\<close>

lemma suffix_single: "suffix [c] a \<longleftrightarrow> a \<noteq> [] \<and> last a = c"
  by (cases a rule: rev_cases) (auto simp: suffix_def)

lemma demo_paths:
  "output_file \<lparr>output_dir = u ''out'', output_format = u ''flac'', quality = q, delete_original = d\<rparr> (u ''/music/a.mp3'') = u ''out/a.flac''"
  "output_file \<lparr>output_dir = u ''out'', output_format = u ''mp3'', quality = q, delete_original = d\<rparr> (u ''a.wav'') = u ''out/a.mp3''"
  by (simp_all add: output_file_def os_path_join_def path_stem_def path_name_def u_def Let_def suffix_single)

text \<open>The standard tier of \<open>flac\<close>, as an instance.\<close>

theorem build_cmd_profile_witness:
  "spec_tier_flags (u ''flac'') Standard = Some [u ''-ar'', u ''44100''] \<and>
   tier_label (u ''flac'') Standard = Some label_standard_44k \<and>
   build_cmd \<lparr>output_dir = u ''out'', output_format = u ''flac'',
              quality = label_standard_44k, delete_original = False\<rparr> (u ''/music/a.mp3'') =
     [u ''ffmpeg'', u ''-y'', u ''-i'', u ''/music/a.mp3'', u ''-vn'', u ''-codec:a'', u ''flac'',
      u ''-ar'', u ''44100'', u ''out/a.flac'']"
  using build_cmd_profile [of "\<lparr>output_dir = u ''out'', output_format = u ''flac'',
              quality = [], delete_original = False\<rparr>" Standard "[u ''-ar'', u ''44100'']" "u ''/music/a.mp3''"]
  by (simp add: spec_tier_flags_eval tier_label_eval table_eval demo_paths)

text \<open>
  The command builder has no failure for a tier outside the format's set. With \<open>mp3\<close> and
  the label of the lossless tier, which the table does not give to \<open>mp3\<close>, it builds the
  command of the lowest bitrate.
\<close>

theorem unsupported_tier_counterexample:
  "spec_tier_flags (u ''mp3'') Lossless = None \<and>
   tier_label (u ''mp3'') Lossless = None \<and>
   build_cmd \<lparr>output_dir = u ''out'', output_format = u ''mp3'',
              quality = label_lossless, delete_original = False\<rparr> (u ''a.wav'') =
     [u ''ffmpeg'', u ''-y'', u ''-i'', u ''a.wav'', u ''-vn'', u ''-codec:a'', u ''libmp3lame'',
      u ''-b:a'', u ''64k'', u ''out/a.mp3'']"
  by (simp add: spec_tier_flags_eval tier_label_eval build_cmd_def codec_args_eval keyword_tests demo_paths)

lemma fallback_eval:
  "fallback_flags (u ''mp3'') = [u ''-b:a'', u ''64k'']"
  "fallback_flags (u ''aac'') = [u ''-b:a'', u ''64k'']"
  "fallback_flags (u ''wma'') = [u ''-b:a'', u ''64k'']"
  "fallback_flags (u ''m4a'') = [u ''-b:a'', u ''128k'']"
  "fallback_flags (u ''ogg'') = [u ''-b:a'', u ''128k'']"
  "fallback_flags (u ''flac'') = [u ''-ar'', u ''44100'']"
  "fallback_flags (u ''wav'') = [u ''-ar'', u ''44100'']"
  by (simp_all add: fallback_flags_def format_literals)

lemma tier_label_values:
  assumes "tier_label fmt' t = Some q"
  shows "(t = High \<and> q \<in> set [label_high_192, label_high_256, label_high_48k]) \<or>
         (t = Medium \<and> q \<in> set [label_medium_128, label_medium_192]) \<or>
         (t = Low \<and> q \<in> set [label_low_64, label_low_128]) \<or>
         (t = Lossless \<and> q = label_lossless) \<or>
         (t = Standard \<and> q = label_standard_44k)"
proof -
  from assms have "tier_label fmt' t \<noteq> None" by simp
  then show ?thesis
  proof (cases rule: tier_label_formats)
    case 1 with assms show ?thesis by (cases t) (auto simp: tier_label_eval)
  next
    case 2 with assms show ?thesis by (cases t) (auto simp: tier_label_eval)
  next
    case 3 with assms show ?thesis by (cases t) (auto simp: tier_label_eval)
  next
    case 4 with assms show ?thesis by (cases t) (auto simp: tier_label_eval)
  next
    case 5 with assms show ?thesis by (cases t) (auto simp: tier_label_eval)
  next
    case 6 with assms show ?thesis by (cases t) (auto simp: tier_label_eval)
  next
    case 7 with assms show ?thesis by (cases t) (auto simp: tier_label_eval)
  qed
qed

text \<open>
  Claim C4, amended. For a supported format and a tier that the table does not give it,
  supplied as the label that the form offers for that tier under some other format, the
  builder does not fail: it builds the command of the format's last branch, 64k for
  \<open>mp3\<close>, \<open>aac\<close> and \<open>wma\<close>, 128k for \<open>m4a\<close> and \<open>ogg\<close>, 44100 Hz for \<open>flac\<close> and \<open>wav\<close>.
\<close>

theorem build_cmd_unsupported_tier:
  assumes fmt: "output_format cfg \<in> set supported_formats"
    and none: "spec_tier_flags (output_format cfg) t = None"
    and label: "tier_label fmt' t = Some (quality cfg)"
  shows "build_cmd cfg input_file =
       [u ''ffmpeg'', u ''-y'', u ''-i'', input_file, u ''-vn''] @
       container_flags (output_format cfg) @
       [u ''-codec:a'', codec_name (output_format cfg)] @
       fallback_flags (output_format cfg) @
       [output_file cfg input_file]"
proof -
  note vals = tier_label_values [OF label]
  from fmt show ?thesis
  proof (cases rule: supported_formats_cases)
    case 1
    with none vals show ?thesis
      by (cases t) (auto simp: build_cmd_def spec_tier_flags_eval
          codec_args_eval table_eval fallback_eval keyword_tests)
  next
    case 2
    with none vals show ?thesis
      by (cases t) (auto simp: build_cmd_def spec_tier_flags_eval
          codec_args_eval table_eval fallback_eval keyword_tests)
  next
    case 3
    with none vals show ?thesis
      by (cases t) (auto simp: build_cmd_def spec_tier_flags_eval
          codec_args_eval table_eval fallback_eval keyword_tests)
  next
    case 4
    with none vals show ?thesis
      by (cases t) (auto simp: build_cmd_def spec_tier_flags_eval
          codec_args_eval table_eval fallback_eval keyword_tests)
  next
    case 5
    with none vals show ?thesis
      by (cases t) (auto simp: build_cmd_def spec_tier_flags_eval
          codec_args_eval table_eval fallback_eval keyword_tests)
  next
    case 6
    with none vals show ?thesis
      by (cases t) (auto simp: build_cmd_def spec_tier_flags_eval
          codec_args_eval table_eval fallback_eval keyword_tests)
  next
    case 7
    with none vals show ?thesis
      by (cases t) (auto simp: build_cmd_def spec_tier_flags_eval
          codec_args_eval table_eval fallback_eval keyword_tests)
  qed
qed

text \<open>The low tier with \<open>flac\<close>, as an instance.\<close>

theorem build_cmd_unsupported_tier_witness:
  "u ''flac'' \<in> set supported_formats \<and>
   spec_tier_flags (u ''flac'') Low = None \<and>
   tier_label (u ''mp3'') Low = Some label_low_64 \<and>
   build_cmd \<lparr>output_dir = u ''out'', output_format = u ''flac'',
              quality = label_low_64, delete_original = False\<rparr> (u ''/music/a.mp3'') =
     [u ''ffmpeg'', u ''-y'', u ''-i'', u ''/music/a.mp3'', u ''-vn'', u ''-codec:a'', u ''flac'',
      u ''-ar'', u ''44100'', u ''out/a.flac'']"
  using build_cmd_unsupported_tier [of "\<lparr>output_dir = u ''out'', output_format = u ''flac'',
              quality = label_low_64, delete_original = False\<rparr>" Low "u ''mp3''" "u ''/music/a.mp3''"]
  by (simp add: supported_formats_def spec_tier_flags_eval tier_label_eval table_eval fallback_eval demo_paths)

section \<open>Rounding to binary64\<close>

lemma pow_nat_int: "(2::rat) ^ nat s / 2 ^ nat (- s) = 2 powi s"
proof (cases "0 \<le> s")
  case True
  then show ?thesis by (simp add: power_int_def)
next
  case False
  then show ?thesis by (simp add: power_int_def field_simps)
qed

lemma bit_length_bounds:
  "0 < n \<Longrightarrow> 2 ^ (bit_length n - 1) \<le> n \<and> n < 2 ^ bit_length n"
proof (induction n rule: bit_length.induct)
  case (1 n)
  show ?case
  proof (cases "n div 2 = 0")
    case True
    with "1.prems" have "n = 1" by (simp add: div_eq_0_iff)
    then show ?thesis by (simp add: bit_length.simps)
  next
    case False
    then have pos: "0 < n div 2" by simp
    from "1.prems" have n0: "n \<noteq> 0" by simp
    have ih: "2 ^ (bit_length (n div 2) - 1) \<le> n div 2 \<and> n div 2 < 2 ^ bit_length (n div 2)"
      using "1.IH" [OF n0 pos] .
    have l: "bit_length n = bit_length (n div 2) + 1"
      using n0 by (subst bit_length.simps) simp
    have lpos: "0 < bit_length (n div 2)"
      using pos by (subst bit_length.simps) simp
    have p: "(2::nat) ^ bit_length (n div 2) = 2 * 2 ^ (bit_length (n div 2) - 1)"
      using lpos by (cases "bit_length (n div 2)") simp_all
    have d1: "2 * (n div 2) \<le> n" by simp
    have d2: "n < 2 * (n div 2) + 2" by presburger
    from ih p d1 have lo: "2 ^ bit_length (n div 2) \<le> n" by linarith
    from ih d2 have hi: "n < 2 * 2 ^ bit_length (n div 2)" by linarith
    from lo hi show ?thesis by (simp add: l)
  qed
qed

lemma round_half_even_near:
  assumes "0 < den"
  shows "\<bar>of_nat (round_half_even num den) - (of_nat num / of_nat den :: rat)\<bar> \<le> 1 / 2"
proof -
  define q where "q = num div den"
  define r where "r = num mod den"
  have num: "num = q * den + r" by (simp add: q_def r_def)
  have r: "r < den" using assms by (simp add: r_def)
  have frac: "(of_nat num / of_nat den :: rat) = of_nat q + of_nat r / of_nat den"
    using assms by (simp add: num field_simps)
  have d: "(0::rat) < of_nat den" using assms by simp
  show ?thesis
  proof (cases "den < 2 * r \<or> (2 * r = den \<and> odd q)")
    case True
    then have v: "round_half_even num den = q + 1"
      by (simp add: round_half_even_def q_def r_def)
    from True have "den \<le> 2 * r" by auto
    then have "(of_nat den :: rat) \<le> 2 * of_nat r" by (metis of_nat_le_iff of_nat_mult of_nat_numeral)
    then have h: "(1 / 2 :: rat) \<le> of_nat r / of_nat den" using d by (simp add: field_simps)
    have "(of_nat r / of_nat den :: rat) < 1" using r d by simp
    with h show ?thesis by (simp add: v frac)
  next
    case False
    then have v: "round_half_even num den = q"
      by (simp add: round_half_even_def q_def r_def)
    from False have "2 * r \<le> den" by auto
    then have "2 * (of_nat r :: rat) \<le> of_nat den" by (metis of_nat_le_iff of_nat_mult of_nat_numeral)
    then have h: "of_nat r / of_nat den \<le> (1 / 2 :: rat)" using d by (simp add: field_simps)
    have "(0 :: rat) \<le> of_nat r / of_nat den" by simp
    with h show ?thesis by (simp add: v frac)
  qed
qed


lemma bit_length_powi:
  assumes "0 < n"
  shows "2 powi (int (bit_length n) - 1) \<le> (of_nat n :: rat)"
    and "(of_nat n :: rat) < 2 powi int (bit_length n)"
proof -
  from bit_length_bounds [OF assms]
  have lo: "2 ^ (bit_length n - 1) \<le> n" and hi: "n < 2 ^ bit_length n" by simp_all
  have pos: "0 < bit_length n" using assms by (subst bit_length.simps) simp
  then have "int (bit_length n) - 1 = int (bit_length n - 1)" by simp
  then have "2 powi (int (bit_length n) - 1) = (2::rat) ^ (bit_length n - 1)"
    by (simp only: power_int_of_nat)
  also have "\<dots> = of_nat (2 ^ (bit_length n - 1))" by simp
  also have "\<dots> \<le> of_nat n" using lo by (simp only: of_nat_le_iff)
  finally show "2 powi (int (bit_length n) - 1) \<le> (of_nat n :: rat)" .
  have "(of_nat n :: rat) < of_nat (2 ^ bit_length n)" using hi by (simp only: of_nat_less_iff)
  then show "(of_nat n :: rat) < 2 powi int (bit_length n)" by simp
qed

lemma ratio_range:
  assumes a: "0 < a" and b: "0 < b"
  shows "2 powi (int (bit_length a) - int (bit_length b) - 1) < (of_nat a / of_nat b :: rat)"
    and "(of_nat a / of_nat b :: rat) < 2 powi (int (bit_length a) - int (bit_length b) + 1)"
proof -
  let ?la = "int (bit_length a)" and ?lb = "int (bit_length b)"
  have bp: "(0::rat) < of_nat b" using b by simp
  have ap: "(0::rat) < of_nat a" using a by simp
  have "2 powi (?la - ?lb - 1) = (2::rat) powi (?la - 1) / 2 powi ?lb"
    by (simp add: power_int_diff)
  also have "\<dots> \<le> of_nat a / 2 powi ?lb"
    using bit_length_powi(1) [OF a] by (simp add: divide_right_mono)
  also have "\<dots> < of_nat a / of_nat b"
    using bit_length_powi(2) [OF b] ap bp by (simp add: divide_strict_left_mono)
  finally show "2 powi (?la - ?lb - 1) < (of_nat a / of_nat b :: rat)" .
  have l: "(0::rat) < 2 powi (?lb - 1)" by simp
  have "(of_nat a / of_nat b :: rat) \<le> of_nat a / 2 powi (?lb - 1)"
  proof (rule divide_left_mono [OF bit_length_powi(1) [OF b]])
    show "(0::rat) \<le> of_nat a" by simp
    show "(0::rat) < of_nat b * 2 powi (?lb - 1)" using bp l by (rule mult_pos_pos)
  qed
  also have "\<dots> < 2 powi ?la / 2 powi (?lb - 1)"
    by (rule divide_strict_right_mono [OF bit_length_powi(2) [OF a] l])
  also have "\<dots> = 2 powi (?la - (?lb - 1))"
    by (rule power_int_diff [symmetric]) simp
  also have "?la - (?lb - 1) = ?la - ?lb + 1" by simp
  finally show "(of_nat a / of_nat b :: rat) < 2 powi (?la - ?lb + 1)" .
qed

lemma scaled_range:
  assumes a: "0 < a" and b: "0 < b"
  shows "2 ^ 52 \<le> (of_nat a / of_nat b :: rat) * 2 powi b64_scale a b"
    and "(of_nat a / of_nat b :: rat) * 2 powi b64_scale a b < 2 ^ 53"
proof -
  let ?d = "int (bit_length a) - int (bit_length b)"
  let ?x = "of_nat a / of_nat b :: rat"
  let ?t = "?x * 2 powi (53 - ?d)"
  have bp: "(0::rat) < of_nat b" using b by simp
  have p: "(0::rat) < 2 powi (53 - ?d)" by simp
  have "2 powi (?d - 1) * 2 powi (53 - ?d) < ?t"
    using ratio_range(1) [OF a b] p by (simp only: mult_strict_right_mono)
  moreover have "2 powi (?d - 1) * 2 powi (53 - ?d) = (2::rat) powi 52"
    by (simp flip: power_int_add)
  ultimately have lo: "2 ^ 52 < ?t" by simp
  have "?t < 2 powi (?d + 1) * 2 powi (53 - ?d)"
    using ratio_range(2) [OF a b] p by (simp only: mult_strict_right_mono)
  moreover have "2 powi (?d + 1) * 2 powi (53 - ?d) = (2::rat) powi 54"
    by (simp flip: power_int_add)
  ultimately have hi: "?t < 2 ^ 54" by simp
  have cond: "(b * 2 ^ nat (?d - 53) * 2 ^ 53 \<le> a * 2 ^ nat (53 - ?d)) \<longleftrightarrow> 2 ^ 53 \<le> ?t"
  proof -
    let ?B = "of_nat b * 2 ^ nat (?d - 53) :: rat"
    let ?A = "of_nat a * 2 ^ nat (53 - ?d) :: rat"
    have B: "0 < ?B" using bp by simp
    have "(b * 2 ^ nat (?d - 53) * 2 ^ 53 \<le> a * 2 ^ nat (53 - ?d)) \<longleftrightarrow>
        (of_nat (b * 2 ^ nat (?d - 53) * 2 ^ 53) \<le> (of_nat (a * 2 ^ nat (53 - ?d)) :: rat))"
      by (simp only: of_nat_le_iff)
    also have "\<dots> \<longleftrightarrow> ?B * 2 ^ 53 \<le> ?A"
      by (simp only: of_nat_mult of_nat_power of_nat_numeral)
    also have "\<dots> \<longleftrightarrow> 2 ^ 53 \<le> ?A / ?B"
      using B by (simp only: pos_le_divide_eq mult.commute)
    also have "?A / ?B = ?x * (2 ^ nat (53 - ?d) / 2 ^ nat (- (53 - ?d)))"
      by (simp only: times_divide_times_eq minus_diff_eq)
    also have "\<dots> = ?t"
      by (simp only: pow_nat_int)
    finally show ?thesis .
  qed
  have half: "?x * 2 powi (52 - ?d) = ?t / 2"
  proof -
    have "(2::rat) powi (52 - ?d + 1) = 2 powi (52 - ?d) * 2 powi 1"
      by (rule power_int_add) simp
    moreover have "52 - ?d + 1 = 53 - ?d" by simp
    ultimately have "(2::rat) powi (53 - ?d) = 2 powi (52 - ?d) * 2" by simp
    then show ?thesis by simp
  qed
  define t where "t = ?t"
  have lo': "2 ^ 52 < t" and hi': "t < 2 ^ 54" using lo hi by (simp_all only: t_def)
  have half': "?x * 2 powi (52 - ?d) = t / 2" using half by (simp only: t_def)
  have full': "?x * 2 powi (53 - ?d) = t" by (simp only: t_def)
  have cond': "(b * 2 ^ nat (?d - 53) * 2 ^ 53 \<le> a * 2 ^ nat (53 - ?d)) \<longleftrightarrow> 2 ^ 53 \<le> t"
    using cond by (simp only: t_def)
  show "2 ^ 52 \<le> ?x * 2 powi b64_scale a b"
  proof (cases "2 ^ 53 \<le> t")
    case True
    then have "b64_scale a b = 52 - ?d" using cond' by (simp only: b64_scale_def if_True)
    then have "?x * 2 powi b64_scale a b = t / 2" by (simp only: half')
    moreover from True have "2 ^ 52 \<le> t / 2" by simp
    ultimately show ?thesis by (simp only:)
  next
    case False
    then have "b64_scale a b = 53 - ?d" using cond' by (simp only: b64_scale_def if_False)
    then have "?x * 2 powi b64_scale a b = t" by (simp only: full')
    moreover from lo' have "2 ^ 52 \<le> t" by simp
    ultimately show ?thesis by (simp only:)
  qed
  show "?x * 2 powi b64_scale a b < 2 ^ 53"
  proof (cases "2 ^ 53 \<le> t")
    case True
    then have "b64_scale a b = 52 - ?d" using cond' by (simp only: b64_scale_def if_True)
    then have "?x * 2 powi b64_scale a b = t / 2" by (simp only: half')
    moreover from hi' have "t / 2 < 2 ^ 53" by simp
    ultimately show ?thesis by (simp only:)
  next
    case False
    then have "b64_scale a b = 53 - ?d" using cond' by (simp only: b64_scale_def if_False)
    then have "?x * 2 powi b64_scale a b = t" by (simp only: full')
    moreover from False have "t < 2 ^ 53" by simp
    ultimately show ?thesis by (simp only:)
  qed
qed


lemma round_b64_error:
  assumes a: "0 < a" and b: "0 < b"
  shows "\<bar>b64_value (round_b64 a b) - of_nat a / of_nat b\<bar> \<le> of_nat a / of_nat b / 2 ^ 53"
    and "0 < fst (round_b64 a b)"
proof -
  define s where "s = b64_scale a b"
  define x :: rat where "x = of_nat a / of_nat b"
  define P :: rat where "P = 2 powi s"
  define m where "m = round_half_even (a * 2 ^ nat s) (b * 2 ^ nat (- s))"
  have r: "round_b64 a b = (m, s)"
    using a by (simp add: round_b64_def m_def s_def)
  have P: "0 < P" by (simp add: P_def)
  have x: "0 < x" using a b by (simp add: x_def)
  have Pq: "P = 2 ^ nat s / 2 ^ nat (- s)" by (simp only: P_def pow_nat_int)
  have den: "0 < b * 2 ^ nat (- s)" using b by simp
  have ratio: "(of_nat (a * 2 ^ nat s) / of_nat (b * 2 ^ nat (- s)) :: rat) = x * P"
    by (simp add: x_def Pq)
  have near: "\<bar>of_nat m - x * P\<bar> \<le> 1 / 2"
    using round_half_even_near [OF den, of "a * 2 ^ nat s"] by (simp only: m_def ratio)
  have lo: "2 ^ 52 \<le> x * P"
    using scaled_range(1) [OF a b] by (simp only: x_def P_def s_def)
  have val: "b64_value (round_b64 a b) = of_nat m / P"
    by (simp add: r b64_value_def Pq)
  have "b64_value (round_b64 a b) - x = (of_nat m - x * P) / P"
    using P by (simp add: val field_simps)
  then have "\<bar>b64_value (round_b64 a b) - x\<bar> = \<bar>of_nat m - x * P\<bar> / P"
    using P by (simp add: abs_divide)
  also have "\<dots> \<le> (1 / 2) / P"
    using near P by (simp only: divide_right_mono less_imp_le)
  also have "\<dots> \<le> x / 2 ^ 53"
  proof -
    have "2 ^ 52 / P \<le> x" using lo P by (simp add: field_simps)
    then have "(2 ^ 52 / P) / 2 ^ 53 \<le> x / 2 ^ 53" by (simp only: divide_right_mono zero_le_power zero_le_numeral)
    moreover have "(2 ^ 52 / P) / 2 ^ 53 = (1 / 2) / P" by simp
    ultimately show ?thesis by (simp only:)
  qed
  finally show "\<bar>b64_value (round_b64 a b) - of_nat a / of_nat b\<bar> \<le> of_nat a / of_nat b / 2 ^ 53"
    by (simp only: x_def)
  have "(0::rat) < of_nat m"
  proof -
    from near have "x * P - 1 / 2 \<le> of_nat m" by linarith
    with lo show ?thesis by simp
  qed
  then show "0 < fst (round_b64 a b)" by (simp add: r)
qed

lemma progress_percent_error:
  assumes k: "0 < k" and n: "0 < n"
  shows "\<bar>progress_percent k n - 100 * of_nat k / of_nat n\<bar>
           \<le> 100 * of_nat k / of_nat n * (1 / 2 ^ 52 + 1 / 2 ^ 106)"
proof -
  define x :: rat where "x = of_nat k / of_nat n"
  define e :: rat where "e = 1 / 2 ^ 53"
  define m where "m = fst (float_div k n)"
  define s where "s = snd (float_div k n)"
  define v where "v = b64_value (float_div k n)"
  have x: "0 < x" using k n by (simp add: x_def)
  have e: "0 < e" by (simp add: e_def)
  have m: "0 < m" using round_b64_error(2) [OF k n] by (simp add: m_def float_div_def)
  have v1: "\<bar>v - x\<bar> \<le> x * e"
    using round_b64_error(1) [OF k n] by (simp add: v_def float_div_def x_def e_def)
  have vq: "v = of_nat m * 2 ^ nat (- s) / 2 ^ nat s"
    by (simp add: v_def b64_value_def m_def s_def)
  have a': "0 < m * 100 * 2 ^ nat (- s)" using m by simp
  have b': "0 < (2::nat) ^ nat s" by simp
  have ratio: "(of_nat (m * 100 * 2 ^ nat (- s)) / of_nat (2 ^ nat s) :: rat) = 100 * v"
    by (simp add: vq)
  have p: "progress_percent k n = b64_value (round_b64 (m * 100 * 2 ^ nat (- s)) (2 ^ nat s))"
    by (simp add: progress_percent_def float_mul_def m_def s_def)
  have v2: "\<bar>progress_percent k n - 100 * v\<bar> \<le> 100 * v * e"
    using round_b64_error(1) [OF a' b'] by (simp only: p ratio e_def) simp
  have vx: "v \<le> x + x * e" using v1 by linarith
  have "100 * v * e \<le> 100 * (x + x * e) * e"
    using vx e by (simp add: mult_right_mono)
  with v1 v2 have "\<bar>progress_percent k n - 100 * x\<bar> \<le> 100 * (x + x * e) * e + 100 * (x * e)"
    by linarith
  also have "\<dots> = 100 * x * (2 * e + e * e)" by (simp add: algebra_simps)
  also have "2 * e + e * e = 1 / 2 ^ 52 + 1 / 2 ^ 106" by (simp add: e_def)
  finally show ?thesis by (simp only: x_def times_divide_eq_right)
qed

lemmas b64_eval = progress_percent_def float_div_def float_mul_def round_b64_def
  b64_scale_def round_half_even_def b64_value_def bit_length.simps

lemma sample_percent:
  "progress_percent 1 2 = 50" "progress_percent 2 2 = 100" "progress_percent 1 1 = 100"
  "progress_percent (Suc 0) 2 = 50" "progress_percent (Suc 0) (Suc 0) = 100"
  by (simp_all add: b64_eval)

lemma thirds_percent:
  "progress_percent 1 3 = 2345624805922133 / 70368744177664"
  "progress_percent 2 3 = 2345624805922133 / 35184372088832"
  "progress_percent 3 3 = 100"
  "progress_percent 11 20 = 7740561859543041 / 140737488355328"
  "progress_percent 29 100 = 8162774324609023 / 281474976710656"
  by (simp_all add: b64_eval)

lemma sample_percent_Suc:
  "progress_percent (Suc 0) (Suc (Suc 0)) = 50"
  "progress_percent (Suc (Suc 0)) (Suc (Suc 0)) = 100"
  "progress_percent (Suc 0) (Suc (Suc (Suc 0))) = 2345624805922133 / 70368744177664"
  "progress_percent (Suc (Suc 0)) (Suc (Suc (Suc 0))) = 2345624805922133 / 35184372088832"
  "progress_percent (Suc (Suc (Suc 0))) (Suc (Suc (Suc 0))) = 100"
  using sample_percent thirds_percent
  by (simp_all add: numeral_2_eq_2 numeral_3_eq_3)

section \<open>The log of a run\<close>

lemma outcomes_of_append: "outcomes_of (xs @ ys) = outcomes_of xs @ outcomes_of ys"
  by (induction xs rule: outcomes_of.induct) simp_all

lemma progress_of_append: "progress_of (xs @ ys) = progress_of xs @ progress_of ys"
  by (induction xs rule: progress_of.induct) simp_all

lemma process_job_events:
  "events (process_job w cfg n i f st) = events st @ job_events w cfg n i f"
  by (simp add: job_events_def process_job_def log_def Let_def split: outcome.splits option.splits)

lemma process_job_converted:
  "converted_files (process_job w cfg n i f st) =
     converted_files st + (case convert_file w i cfg f of Success p \<Rightarrow> 1 | Failure r \<Rightarrow> 0)"
  by (simp add: process_job_def log_def Let_def split: outcome.splits option.splits)

lemma process_job_failed:
  "failed_files (process_job w cfg n i f st) =
     failed_files st @ (case convert_file w i cfg f of Success p \<Rightarrow> [] | Failure r \<Rightarrow> [(path_name f, r)])"
  by (simp add: process_job_def log_def Let_def split: outcome.splits option.splits)

lemma job_events_outcomes: "outcomes_of (job_events w cfg n i f) = [convert_file w i cfg f]"
  by (simp add: job_events_def process_job_def log_def Let_def split: outcome.splits option.splits)

lemma job_events_progress:
  "progress_of (job_events w cfg n i f) = [progress_percent (i + 1) n]"
  by (simp add: job_events_def process_job_def log_def Let_def split: outcome.splits option.splits)

lemma job_events_no_cancel: "Cancelled \<notin> set (job_events w cfg n i f)"
  by (simp add: job_events_def process_job_def log_def Let_def split: outcome.splits option.splits)

lemma map_upt_shift: "map g [0..<Suc k] = g 0 # map (\<lambda>j. g (Suc j)) [0..<k]"
  by (simp add: map_upt_Suc del: upt_Suc)

lemma worker_loop_events:
  assumes "k \<le> length fs" "\<forall>j<k. is_converting w (i + j)"
    "k < length fs \<longrightarrow> \<not> is_converting w (i + k)"
  shows "events (worker_loop w cfg n i fs st) =
     events st @ concat (map (\<lambda>j. job_events w cfg n (i + j) (fs ! j)) [0..<k]) @
     (if k < length fs then [Cancelled] else [])"
  using assms
proof (induction fs arbitrary: i k st)
  case Nil
  then show ?case by simp
next
  case (Cons f rest)
  show ?case
  proof (cases k)
    case 0
    with Cons.prems show ?thesis by (simp add: log_def)
  next
    case (Suc k')
    from Cons.prems Suc have conv: "is_converting w i" by force
    have a: "k' \<le> length rest" using Cons.prems Suc by simp
    have b: "\<forall>j<k'. is_converting w (Suc i + j)" using Cons.prems Suc by auto
    have c: "k' < length rest \<longrightarrow> \<not> is_converting w (Suc i + k')" using Cons.prems Suc by auto
    have "events (worker_loop w cfg n (Suc i) rest (process_job w cfg n i f st)) =
      events (process_job w cfg n i f st) @
      concat (map (\<lambda>j. job_events w cfg n (Suc i + j) (rest ! j)) [0..<k']) @
      (if k' < length rest then [Cancelled] else [])"
      by (rule Cons.IH [OF a b c])
    with conv Suc show ?thesis
      by (simp add: process_job_events map_upt_shift del: upt_Suc)
  qed
qed



lemma process_job_tally:
  assumes "converted_files st =
             length (filter (\<lambda>out. case out of Success p \<Rightarrow> True | Failure r \<Rightarrow> False)
                       (outcomes_of (events st)))"
    and "map snd (failed_files st) =
           concat (map (\<lambda>out. case out of Success p \<Rightarrow> [] | Failure r \<Rightarrow> [r])
                     (outcomes_of (events st)))"
  shows "converted_files (process_job w cfg n i f st) =
             length (filter (\<lambda>out. case out of Success p \<Rightarrow> True | Failure r \<Rightarrow> False)
                       (outcomes_of (events (process_job w cfg n i f st))))
       \<and> map snd (failed_files (process_job w cfg n i f st)) =
           concat (map (\<lambda>out. case out of Success p \<Rightarrow> [] | Failure r \<Rightarrow> [r])
                     (outcomes_of (events (process_job w cfg n i f st))))"
  using assms
  by (cases "convert_file w i cfg f")
     (simp_all add: process_job_events process_job_converted process_job_failed
        outcomes_of_append job_events_outcomes)

lemma worker_loop_tally:
  assumes "converted_files st =
             length (filter (\<lambda>out. case out of Success p \<Rightarrow> True | Failure r \<Rightarrow> False)
                       (outcomes_of (events st)))"
    and "map snd (failed_files st) =
           concat (map (\<lambda>out. case out of Success p \<Rightarrow> [] | Failure r \<Rightarrow> [r])
                     (outcomes_of (events st)))"
  shows "converted_files (worker_loop w cfg n i fs st) =
             length (filter (\<lambda>out. case out of Success p \<Rightarrow> True | Failure r \<Rightarrow> False)
                       (outcomes_of (events (worker_loop w cfg n i fs st))))
       \<and> map snd (failed_files (worker_loop w cfg n i fs st)) =
           concat (map (\<lambda>out. case out of Success p \<Rightarrow> [] | Failure r \<Rightarrow> [r])
                     (outcomes_of (events (worker_loop w cfg n i fs st))))"
  using assms
proof (induction fs arbitrary: i st)
  case Nil
  then show ?case by simp
next
  case (Cons f rest)
  show ?case
  proof (cases "is_converting w i")
    case False
    with Cons.prems show ?thesis by (simp add: log_def outcomes_of_append)
  next
    case True
    have "converted_files (worker_loop w cfg n (i + 1) rest (process_job w cfg n i f st)) =
             length (filter (\<lambda>out. case out of Success p \<Rightarrow> True | Failure r \<Rightarrow> False)
                       (outcomes_of (events (worker_loop w cfg n (i + 1) rest (process_job w cfg n i f st)))))
       \<and> map snd (failed_files (worker_loop w cfg n (i + 1) rest (process_job w cfg n i f st))) =
           concat (map (\<lambda>out. case out of Success p \<Rightarrow> [] | Failure r \<Rightarrow> [r])
                     (outcomes_of (events (worker_loop w cfg n (i + 1) rest (process_job w cfg n i f st)))))"
      using process_job_tally [OF Cons.prems, of w cfg n i f]
      by (intro Cons.IH) simp_all
    with True show ?thesis by simp
  qed
qed

lemma outcomes_of_concat_jobs:
  "outcomes_of (concat (map (\<lambda>j. job_events w cfg n (i + j) (fs ! j)) [0..<k])) =
     map (\<lambda>j. convert_file w (i + j) cfg (fs ! j)) [0..<k]"
  by (induction k) (simp_all add: outcomes_of_append job_events_outcomes)

lemma progress_of_concat_jobs:
  "progress_of (concat (map (\<lambda>j. job_events w cfg n (i + j) (fs ! j)) [0..<k])) =
     map (\<lambda>j. progress_percent (i + j + 1) n) [0..<k]"
  by (induction k) (simp_all add: progress_of_append job_events_progress)

lemma no_cancel_concat_jobs:
  "Cancelled \<notin> set (concat (map (\<lambda>j. job_events w cfg n (i + j) (fs ! j)) [0..<k]))"
  by (induction k) (simp_all add: job_events_no_cancel)

section \<open>Outcomes of a run\<close>

lemma conversion_worker_started:
  assumes "output_dir_writable w"
  shows "conversion_worker w cfg fs =
     log (Finished (converted_files (worker_loop w cfg (length fs) 0 fs
              \<lparr>converted_files = 0, failed_files = [], events = [Run_started (length fs)]\<rparr>))
            (failed_files (worker_loop w cfg (length fs) 0 fs
              \<lparr>converted_files = 0, failed_files = [], events = [Run_started (length fs)]\<rparr>)))
       (worker_loop w cfg (length fs) 0 fs
          \<lparr>converted_files = 0, failed_files = [], events = [Run_started (length fs)]\<rparr>)"
  using assms by (simp add: conversion_worker_def Let_def)

lemma log_fields:
  "events (log e st) = events st @ [e]"
  "converted_files (log e st) = converted_files st"
  "failed_files (log e st) = failed_files st"
  by (simp_all add: log_def)

lemma worker_run_log:
  assumes writable: "output_dir_writable w"
    and k: "k \<le> length fs"
    and before: "\<forall>j<k. is_converting w j"
    and stop: "k < length fs \<longrightarrow> \<not> is_converting w k"
  shows "events (conversion_worker w cfg fs) =
      Run_started (length fs) #
      concat (map (\<lambda>j. job_events w cfg (length fs) j (fs ! j)) [0..<k]) @
      (if k < length fs then [Cancelled] else []) @
      [Finished (converted_files (conversion_worker w cfg fs))
                (failed_files (conversion_worker w cfg fs))]
    \<and> outcomes_of (events (conversion_worker w cfg fs)) =
      map (\<lambda>j. convert_file w j cfg (fs ! j)) [0..<k]
    \<and> converted_files (conversion_worker w cfg fs) =
      length (filter (\<lambda>out. case out of Success p \<Rightarrow> True | Failure r \<Rightarrow> False)
                (outcomes_of (events (conversion_worker w cfg fs))))
    \<and> map snd (failed_files (conversion_worker w cfg fs)) =
      concat (map (\<lambda>out. case out of Success p \<Rightarrow> [] | Failure r \<Rightarrow> [r])
                (outcomes_of (events (conversion_worker w cfg fs))))"
proof -
  let ?init = "\<lparr>converted_files = 0, failed_files = [], events = [Run_started (length fs)]\<rparr>"
  let ?fin = "worker_loop w cfg (length fs) 0 fs ?init"
  have ev: "events ?fin = Run_started (length fs) #
      concat (map (\<lambda>j. job_events w cfg (length fs) j (fs ! j)) [0..<k]) @
      (if k < length fs then [Cancelled] else [])"
    using worker_loop_events [where k = k and fs = fs and w = w and i = 0 and cfg = cfg
        and n = "length fs" and st = ?init] k before stop by simp
  have tally: "converted_files ?fin =
      length (filter (\<lambda>out. case out of Success p \<Rightarrow> True | Failure r \<Rightarrow> False)
                (outcomes_of (events ?fin)))
    \<and> map snd (failed_files ?fin) =
      concat (map (\<lambda>out. case out of Success p \<Rightarrow> [] | Failure r \<Rightarrow> [r])
                (outcomes_of (events ?fin)))"
    by (rule worker_loop_tally) simp_all
  have out: "outcomes_of (events ?fin) = map (\<lambda>j. convert_file w j cfg (fs ! j)) [0..<k]"
    using outcomes_of_concat_jobs [where w = w and cfg = cfg and n = "length fs" and i = 0
        and fs = fs and k = k]
    by (simp add: ev outcomes_of_append)
  have r: "conversion_worker w cfg fs =
     log (Finished (converted_files ?fin) (failed_files ?fin)) ?fin"
    by (rule conversion_worker_started [OF writable])
  have e1: "events (conversion_worker w cfg fs) =
      events ?fin @ [Finished (converted_files ?fin) (failed_files ?fin)]"
    by (simp only: r log_fields)
  have c1: "converted_files (conversion_worker w cfg fs) = converted_files ?fin"
    by (simp only: r log_fields)
  have f1: "failed_files (conversion_worker w cfg fs) = failed_files ?fin"
    by (simp only: r log_fields)
  have o1: "outcomes_of (events (conversion_worker w cfg fs)) = outcomes_of (events ?fin)"
    by (simp add: e1 outcomes_of_append)
  show ?thesis
    using tally out by (simp only: o1 c1 f1) (simp add: e1 ev)
qed


text \<open>
  Claim C2, amended. In a run that starts (the output directory is writable), let \<open>k\<close> be
  the number of jobs before the first one that finds the flag cleared, or the number of
  files when there is none. The log is the start line, what each of the first \<open>k\<close> jobs
  adds, in order, one cancellation line when \<open>k\<close> is less than the number of files, and the
  summary. It reports exactly one outcome for each of the first \<open>k\<close> jobs, in the order of
  the list, a failure being followed by the next job like a success, and none for the
  others; the count of conversions and the list of failures agree with these outcomes.
  The jobs after the cancellation appear nowhere in the log.
\<close>

theorem conversion_worker_outcomes:
  assumes writable: "output_dir_writable w"
    and k: "k \<le> length fs"
    and before: "\<forall>j<k. is_converting w j"
    and stop: "k < length fs \<longrightarrow> \<not> is_converting w k"
  shows "events (conversion_worker w cfg fs) =
      Run_started (length fs) #
      concat (map (\<lambda>j. job_events w cfg (length fs) j (fs ! j)) [0..<k]) @
      (if k < length fs then [Cancelled] else []) @
      [Finished (converted_files (conversion_worker w cfg fs))
                (failed_files (conversion_worker w cfg fs))]
    \<and> outcomes_of (events (conversion_worker w cfg fs)) =
      map (\<lambda>j. convert_file w j cfg (fs ! j)) [0..<k]
    \<and> converted_files (conversion_worker w cfg fs) =
      length (filter (\<lambda>out. case out of Success p \<Rightarrow> True | Failure r \<Rightarrow> False)
                (outcomes_of (events (conversion_worker w cfg fs))))
    \<and> map snd (failed_files (conversion_worker w cfg fs)) =
      concat (map (\<lambda>out. case out of Success p \<Rightarrow> [] | Failure r \<Rightarrow> [r])
                (outcomes_of (events (conversion_worker w cfg fs))))"
  using assms by (rule worker_run_log)

lemma sample_names:
  "path_name (u ''a.wav'') = u ''a.wav''" "path_name (u ''b.wav'') = u ''b.wav''"
  by (simp_all add: path_name_def u_def)

lemma sample_paths:
  "output_file sample_cfg (u ''a.wav'') = u ''out/a.mp3''"
  "output_file sample_cfg (u ''b.wav'') = u ''out/b.mp3''"
  "output_file (sample_cfg\<lparr>delete_original := True\<rparr>) (u ''a.wav'') = u ''out/a.mp3''"
  by (simp_all add: sample_cfg_def output_file_def os_path_join_def path_stem_def
      path_name_def u_def Let_def suffix_single)

lemma convert_file_exit0:
  assumes "subprocess_run w i (encoder_call w cfg f) = Completed 0 err"
  shows "convert_file w i cfg f = Success (output_file cfg f)"
  using assms by (simp add: convert_file_def)

lemma classify_permission_denied:
  "classify_stderr (u ''Permission denied'') = Inr PermissionDenied"
  by (simp add: classify_stderr_def u_def)

lemma sample_convert:
  "convert_file sample_world i sample_cfg f = Success (output_file sample_cfg f)"
  "convert_file (sample_world\<lparr>is_converting := c\<rparr>) i sample_cfg f = Success (output_file sample_cfg f)"
  "convert_file (sample_world\<lparr>subprocess_run :=
       (\<lambda>i a. if i = 0 then Completed 1 (u ''Permission denied'') else Completed 0 [])\<rparr>)
     0 sample_cfg f = Failure PermissionDenied"
  "convert_file (sample_world\<lparr>subprocess_run :=
       (\<lambda>i a. if i = 0 then Completed 1 (u ''Permission denied'') else Completed 0 [])\<rparr>)
     (Suc 0) sample_cfg f = Success (output_file sample_cfg f)"
  by (simp_all add: convert_file_def sample_world_def classify_permission_denied)



lemma sample_flags:
  "delete_original sample_cfg = False"
  "output_dir_writable sample_world" "is_converting sample_world i"
  "output_dir_writable (sample_world\<lparr>is_converting := c\<rparr>)"
  "is_converting (sample_world\<lparr>is_converting := c\<rparr>) = c"
  by (simp_all add: sample_cfg_def sample_world_def)

lemma sample_job_events:
  "job_events (sample_world\<lparr>is_converting := c\<rparr>) sample_cfg 2 0 (u ''a.wav'') =
     [Job_started 1 2 (u ''a.wav''), Converted (u ''out/a.mp3''), Progress 1 2 50]"
  by (simp add: job_events_def process_job_def log_def Let_def sample_convert
      sample_paths sample_names sample_flags sample_percent sample_percent_Suc)

text \<open>
  Two files, cancelled after the first: the log ends with the cancellation line and the
  summary, and says nothing of the second file.
\<close>

theorem not_attempted_counterexample:
  "events (conversion_worker (sample_world\<lparr>is_converting := (\<lambda>i. i < 1)\<rparr>) sample_cfg
             [u ''a.wav'', u ''b.wav'']) =
     [Run_started 2, Job_started 1 2 (u ''a.wav''), Converted (u ''out/a.mp3''),
      Progress 1 2 50, Cancelled, Finished 1 []]"
  by (simp add: conversion_worker_def process_job_def log_def Let_def sample_convert
      sample_paths sample_names sample_flags sample_percent sample_percent_Suc)


lemma sample_failing_flags:
  "output_dir_writable (sample_world\<lparr>subprocess_run := r\<rparr>)"
  "is_converting (sample_world\<lparr>subprocess_run := r\<rparr>) i"
  by (simp_all add: sample_world_def)

text \<open>Two files, the first of which fails: the second is converted all the same.\<close>

theorem conversion_worker_outcomes_witness:
  "outcomes_of (events (conversion_worker
      (sample_world\<lparr>subprocess_run :=
         (\<lambda>i a. if i = 0 then Completed 1 (u ''Permission denied'') else Completed 0 [])\<rparr>)
      sample_cfg [u ''a.wav'', u ''b.wav''])) =
     [Failure PermissionDenied, Success (u ''out/b.mp3'')]
   \<and> converted_files (conversion_worker
      (sample_world\<lparr>subprocess_run :=
         (\<lambda>i a. if i = 0 then Completed 1 (u ''Permission denied'') else Completed 0 [])\<rparr>)
      sample_cfg [u ''a.wav'', u ''b.wav'']) = 1
   \<and> map snd (failed_files (conversion_worker
      (sample_world\<lparr>subprocess_run :=
         (\<lambda>i a. if i = 0 then Completed 1 (u ''Permission denied'') else Completed 0 [])\<rparr>)
      sample_cfg [u ''a.wav'', u ''b.wav''])) = [PermissionDenied]"
proof -
  let ?w = "sample_world\<lparr>subprocess_run :=
         (\<lambda>i a. if i = 0 then Completed 1 (u ''Permission denied'') else Completed 0 [])\<rparr>"
  let ?fs = "[u ''a.wav'', u ''b.wav'']"
  have h1: "output_dir_writable ?w" by (rule sample_failing_flags)
  have h2: "2 \<le> length ?fs" by simp
  have h3: "\<forall>j<2. is_converting ?w j" by (simp add: sample_flags)
  have h4: "2 < length ?fs \<longrightarrow> \<not> is_converting ?w 2" by simp
  note run = conversion_worker_outcomes [OF h1 h2 h3 h4, of sample_cfg]
  have out: "outcomes_of (events (conversion_worker ?w sample_cfg ?fs)) =
      [Failure PermissionDenied, Success (u ''out/b.mp3'')]"
    using run [THEN conjunct2, THEN conjunct1]
    by (simp add: numeral_2_eq_2 sample_convert sample_paths)
  show ?thesis
    using run [THEN conjunct2, THEN conjunct2]
    by (simp add: out)
qed

section \<open>Progress and removal of the source\<close>

lemma job_events_success:
  assumes "convert_file w i cfg f = Success p"
  shows "job_events w cfg n i f =
     [Job_started (i + 1) n (path_name f), Converted p] @ removal_events w cfg i f @
     [Progress (i + 1) n (progress_percent (i + 1) n)]"
  using assms
  by (simp add: job_events_def process_job_def removal_events_def log_def Let_def
      split: option.splits)

lemma tally_all_success:
  assumes "set outs \<subseteq> range Success"
  shows "length (filter (\<lambda>out. case out of Success p \<Rightarrow> True | Failure r \<Rightarrow> False) outs) =
           length outs
       \<and> concat (map (\<lambda>out. case out of Success p \<Rightarrow> [] | Failure r \<Rightarrow> [r]) outs) = []"
  using assms by (induction outs) auto

text \<open>
  Claim C9, amended. In a run that starts, is never cancelled and whose encoder exits with
  0 for every file, each job logs its start, its conversion with the resolved output
  path, the removal of the source when that is asked for, and then its progress; all
  outcomes are successes, in the order of the list. The percentage for the job at index
  \<open>j\<close> of \<open>N\<close> is what binary64 arithmetic gives for \<open>((j + 1) / N) * 100\<close>, the quotient and
  the product each rounded to the nearest number. It differs from \<open>100 (j + 1) / N\<close> by at
  most that number times \<open>2 ^ (- 52) + 2 ^ (- 106)\<close>, and need not be equal to it.
\<close>

theorem progress_events:
  assumes writable: "output_dir_writable w"
    and running: "\<forall>j<length fs. is_converting w j"
    and exit0: "\<forall>j<length fs. \<exists>err.
                  subprocess_run w j (encoder_call w cfg (fs ! j)) = Completed 0 err"
  shows "events (conversion_worker w cfg fs) =
      Run_started (length fs) #
      concat (map (\<lambda>j. [Job_started (j + 1) (length fs) (path_name (fs ! j)),
                         Converted (output_file cfg (fs ! j))] @
                        removal_events w cfg j (fs ! j) @
                        [Progress (j + 1) (length fs)
                           (progress_percent (j + 1) (length fs))])
                [0..<length fs]) @
      [Finished (length fs) []]
    \<and> progress_of (events (conversion_worker w cfg fs)) =
      map (\<lambda>j. progress_percent (j + 1) (length fs)) [0..<length fs]
    \<and> (\<forall>j<length fs.
          \<bar>progress_percent (j + 1) (length fs) - 100 * of_nat (j + 1) / of_nat (length fs)\<bar>
            \<le> 100 * of_nat (j + 1) / of_nat (length fs) * (1 / 2 ^ 52 + 1 / 2 ^ 106))
    \<and> outcomes_of (events (conversion_worker w cfg fs)) =
      map (\<lambda>j. Success (output_file cfg (fs ! j))) [0..<length fs]"
proof -
  let ?r = "conversion_worker w cfg fs"
  let ?n = "length fs"
  have conv: "convert_file w j cfg (fs ! j) = Success (output_file cfg (fs ! j))"
    if "j < ?n" for j
    using exit0 that by (auto intro: convert_file_exit0)
  have run: "events ?r =
      Run_started ?n # concat (map (\<lambda>j. job_events w cfg ?n j (fs ! j)) [0..<?n]) @
      (if ?n < ?n then [Cancelled] else []) @
      [Finished (converted_files ?r) (failed_files ?r)]
    \<and> outcomes_of (events ?r) = map (\<lambda>j. convert_file w j cfg (fs ! j)) [0..<?n]
    \<and> converted_files ?r =
      length (filter (\<lambda>out. case out of Success p \<Rightarrow> True | Failure r \<Rightarrow> False)
                (outcomes_of (events ?r)))
    \<and> map snd (failed_files ?r) =
      concat (map (\<lambda>out. case out of Success p \<Rightarrow> [] | Failure r \<Rightarrow> [r])
                (outcomes_of (events ?r)))"
    using writable running by (intro worker_run_log) simp_all
  note r1 = run [THEN conjunct1]
  note r2 = run [THEN conjunct2, THEN conjunct1]
  note r3 = run [THEN conjunct2, THEN conjunct2, THEN conjunct1]
  note r4 = run [THEN conjunct2, THEN conjunct2, THEN conjunct2]
  have "map (\<lambda>j. convert_file w j cfg (fs ! j)) [0..<?n] =
      map (\<lambda>j. Success (output_file cfg (fs ! j))) [0..<?n]"
    by (rule map_cong [OF refl]) (simp add: conv)
  with r2 have outs:
    "outcomes_of (events ?r) = map (\<lambda>j. Success (output_file cfg (fs ! j))) [0..<?n]"
    by (rule trans)
  have "set (map (\<lambda>j. Success (output_file cfg (fs ! j))) [0..<?n]) \<subseteq> range Success"
    by auto
  note all = tally_all_success [OF this]
  have c: "converted_files ?r = ?n"
    using r3 all [THEN conjunct1] by (simp only: outs length_map length_upt minus_nat.diff_0)
  have "map snd (failed_files ?r) = []"
    using r4 all [THEN conjunct2] by (simp only: outs)
  then have f: "failed_files ?r = []" by simp
  note tally = c f
  have jobs: "map (\<lambda>j. job_events w cfg ?n j (fs ! j)) [0..<?n] =
      map (\<lambda>j. [Job_started (j + 1) ?n (path_name (fs ! j)),
                 Converted (output_file cfg (fs ! j))] @
                removal_events w cfg j (fs ! j) @
                [Progress (j + 1) ?n (progress_percent (j + 1) ?n)]) [0..<?n]"
    by (rule map_cong [OF refl]) (simp add: job_events_success [OF conv])
  have ev: "events ?r =
      Run_started ?n #
      concat (map (\<lambda>j. [Job_started (j + 1) ?n (path_name (fs ! j)),
                         Converted (output_file cfg (fs ! j))] @
                        removal_events w cfg j (fs ! j) @
                        [Progress (j + 1) ?n (progress_percent (j + 1) ?n)])
                [0..<?n]) @
      [Finished ?n []]"
    using r1 by (simp only: jobs tally) simp
  have prog: "progress_of (events ?r) =
      map (\<lambda>j. progress_percent (j + 1) ?n) [0..<?n]"
  proof -
    have "progress_of (events ?r) =
        progress_of (concat (map (\<lambda>j. job_events w cfg ?n (0 + j) (fs ! j)) [0..<?n]))"
      by (simp only: r1 tally) (simp add: progress_of_append)
    also have "\<dots> = map (\<lambda>j. progress_percent (0 + j + 1) ?n) [0..<?n]"
      by (rule progress_of_concat_jobs)
    finally show ?thesis by simp
  qed
  have near: "\<forall>j<?n.
          \<bar>progress_percent (j + 1) ?n - 100 * of_nat (j + 1) / of_nat ?n\<bar>
            \<le> 100 * of_nat (j + 1) / of_nat ?n * (1 / 2 ^ 52 + 1 / 2 ^ 106)"
  proof (intro allI impI)
    fix j assume "j < ?n"
    then have "0 < ?n" by linarith
    then show "\<bar>progress_percent (j + 1) ?n - 100 * of_nat (j + 1) / of_nat ?n\<bar>
            \<le> 100 * of_nat (j + 1) / of_nat ?n * (1 / 2 ^ 52 + 1 / 2 ^ 106)"
      by (intro progress_percent_error) simp_all
  qed
  from ev prog near outs show ?thesis by (intro conjI)
qed

text \<open>
  Three files: the first two percentages are not \<open>100 / 3\<close> and \<open>200 / 3\<close> but the binary64
  numbers that print as 33.33333333333333 and 66.66666666666666.
\<close>

theorem progress_counterexample:
  "progress_of (events (conversion_worker sample_world sample_cfg
       [u ''a.wav'', u ''b.wav'', u ''c.wav''])) =
     [2345624805922133 / 70368744177664, 2345624805922133 / 35184372088832, 100]
   \<and> (2345624805922133 / 70368744177664 :: rat) \<noteq> 100 * of_nat (0 + 1) / of_nat 3
   \<and> (2345624805922133 / 35184372088832 :: rat) \<noteq> 100 * of_nat (1 + 1) / of_nat 3"
  by (simp add: conversion_worker_def process_job_def log_def Let_def sample_convert
      sample_flags sample_percent_Suc numeral_3_eq_3)

text \<open>Two files: the percentages are 50 and 100, and both are converted, in order.\<close>

theorem progress_events_witness:
  "events (conversion_worker sample_world sample_cfg [u ''a.wav'', u ''b.wav'']) =
     [Run_started 2,
      Job_started 1 2 (u ''a.wav''), Converted (u ''out/a.mp3''), Progress 1 2 50,
      Job_started 2 2 (u ''b.wav''), Converted (u ''out/b.mp3''), Progress 2 2 100,
      Finished 2 []]
   \<and> progress_of (events (conversion_worker sample_world sample_cfg [u ''a.wav'', u ''b.wav''])) =
     [50, 100]
   \<and> outcomes_of (events (conversion_worker sample_world sample_cfg [u ''a.wav'', u ''b.wav''])) =
     [Success (u ''out/a.mp3''), Success (u ''out/b.mp3'')]"
proof -
  let ?fs = "[u ''a.wav'', u ''b.wav'']"
  have h1: "output_dir_writable sample_world" by (rule sample_flags)
  have h2: "\<forall>j<length ?fs. is_converting sample_world j" by (simp add: sample_flags)
  have h3: "\<forall>j<length ?fs. \<exists>err.
      subprocess_run sample_world j (encoder_call sample_world sample_cfg (?fs ! j)) =
      Completed 0 err"
    by (simp add: sample_world_def)
  note t = progress_events [OF h1 h2 h3]
  have e: "events (conversion_worker sample_world sample_cfg ?fs) =
     [Run_started 2,
      Job_started 1 2 (u ''a.wav''), Converted (u ''out/a.mp3''), Progress 1 2 50,
      Job_started 2 2 (u ''b.wav''), Converted (u ''out/b.mp3''), Progress 2 2 100,
      Finished 2 []]"
    using t [THEN conjunct1]
    by (simp add: numeral_2_eq_2 sample_paths sample_names removal_events_def sample_flags
        sample_percent_Suc)
  have p: "progress_of (events (conversion_worker sample_world sample_cfg ?fs)) = [50, 100]"
    using t [THEN conjunct2, THEN conjunct1]
    by (simp add: numeral_2_eq_2 sample_percent_Suc)
  have o: "outcomes_of (events (conversion_worker sample_world sample_cfg ?fs)) =
     [Success (u ''out/a.mp3''), Success (u ''out/b.mp3'')]"
    using t [THEN conjunct2, THEN conjunct2, THEN conjunct2]
    by (simp add: numeral_2_eq_2 sample_paths)
  from e p o show ?thesis by (intro conjI)
qed

text \<open>
  Claim C7. When the conversion of a file succeeds and the source is to be deleted, the
  job asks for the removal of the input file after it has logged the conversion. If the
  removal fails, the job logs a line with the text of the exception and goes on: its
  outcome is still the success, the count of conversions has gone up by one, the list of
  failures is unchanged, and the loop proceeds to the next file.
\<close>

theorem delete_failure_keeps_success:
  assumes ok: "convert_file w i cfg f = Success p"
    and del: "delete_original cfg"
  shows "events (process_job w cfg n i f st) =
      events st @ [Job_started (i + 1) n (path_name f), Converted p] @
      (case os_remove w i f of
         None \<Rightarrow> [Source_removed f]
       | Some e \<Rightarrow> [Remove_failed f e]) @
      [Progress (i + 1) n (progress_percent (i + 1) n)]
    \<and> outcomes_of (job_events w cfg n i f) = [Success p]
    \<and> converted_files (process_job w cfg n i f st) = converted_files st + 1
    \<and> failed_files (process_job w cfg n i f st) = failed_files st
    \<and> (is_converting w i \<longrightarrow>
         worker_loop w cfg n i (f # rest) st =
         worker_loop w cfg n (i + 1) rest (process_job w cfg n i f st))"
proof (intro conjI)
  show "events (process_job w cfg n i f st) =
      events st @ [Job_started (i + 1) n (path_name f), Converted p] @
      (case os_remove w i f of
         None \<Rightarrow> [Source_removed f]
       | Some e \<Rightarrow> [Remove_failed f e]) @
      [Progress (i + 1) n (progress_percent (i + 1) n)]"
    using del by (simp add: process_job_events job_events_success [OF ok] removal_events_def)
  show "outcomes_of (job_events w cfg n i f) = [Success p]"
    by (simp only: job_events_outcomes ok)
  show "converted_files (process_job w cfg n i f st) = converted_files st + 1"
    by (simp add: process_job_converted ok)
  show "failed_files (process_job w cfg n i f st) = failed_files st"
    by (simp add: process_job_failed ok)
  show "is_converting w i \<longrightarrow>
         worker_loop w cfg n i (f # rest) st =
         worker_loop w cfg n (i + 1) rest (process_job w cfg n i f st)"
    by simp
qed

lemma sample_remove_fails:
  "convert_file (sample_world\<lparr>os_remove := r\<rparr>) i (sample_cfg\<lparr>delete_original := True\<rparr>) f =
     Success (output_file (sample_cfg\<lparr>delete_original := True\<rparr>) f)"
  "os_remove (sample_world\<lparr>os_remove := r\<rparr>) = r"
  "is_converting (sample_world\<lparr>os_remove := r\<rparr>) i"
  by (simp_all add: convert_file_def sample_world_def)

text \<open>One file whose removal is refused.\<close>

theorem delete_failure_keeps_success_witness:
  "events (process_job (sample_world\<lparr>os_remove := (\<lambda>i p. Some (u ''Permission denied''))\<rparr>)
             (sample_cfg\<lparr>delete_original := True\<rparr>) 1 0 (u ''a.wav'')
             \<lparr>converted_files = 0, failed_files = [], events = []\<rparr>) =
     [Job_started 1 1 (u ''a.wav''), Converted (u ''out/a.mp3''),
      Remove_failed (u ''a.wav'') (u ''Permission denied''), Progress 1 1 100]
   \<and> converted_files (process_job
             (sample_world\<lparr>os_remove := (\<lambda>i p. Some (u ''Permission denied''))\<rparr>)
             (sample_cfg\<lparr>delete_original := True\<rparr>) 1 0 (u ''a.wav'')
             \<lparr>converted_files = 0, failed_files = [], events = []\<rparr>) = 1
   \<and> failed_files (process_job
             (sample_world\<lparr>os_remove := (\<lambda>i p. Some (u ''Permission denied''))\<rparr>)
             (sample_cfg\<lparr>delete_original := True\<rparr>) 1 0 (u ''a.wav'')
             \<lparr>converted_files = 0, failed_files = [], events = []\<rparr>) = []"
proof -
  let ?w = "sample_world\<lparr>os_remove := (\<lambda>i p. Some (u ''Permission denied''))\<rparr>"
  let ?cfg = "sample_cfg\<lparr>delete_original := True\<rparr>"
  have h1: "convert_file ?w 0 ?cfg (u ''a.wav'') = Success (u ''out/a.mp3'')"
    by (simp only: sample_remove_fails sample_paths)
  have h2: "delete_original ?cfg" by simp
  show ?thesis
    using delete_failure_keeps_success [OF h1 h2, of 1
        "\<lparr>converted_files = 0, failed_files = [], events = []\<rparr>" "[]"]
    by (simp add: sample_names sample_remove_fails sample_percent)
qed

section \<open>The output path\<close>

lemma py_split_nonempty: "py_split sep s \<noteq> []"
  by (induction s) (simp_all split: list.splits)

lemma py_split_subset: "l \<in> set (py_split sep s) \<Longrightarrow> set l \<subseteq> set s"
proof (induction s arbitrary: l)
  case Nil
  then show ?case by simp
next
  case (Cons c cs)
  show ?case
  proof (cases "c = sep")
    case True
    with Cons show ?thesis by auto
  next
    case False
    obtain x xs where xs: "py_split sep cs = x # xs"
      using py_split_nonempty [of sep cs] by (cases "py_split sep cs") auto
    have ih: "\<forall>l' \<in> set (x # xs). set l' \<subseteq> set cs"
      using Cons.IH xs by auto
    from Cons.prems False xs have "l = c # x \<or> l \<in> set xs" by auto
    then show ?thesis using ih by auto
  qed
qed

lemma py_split_no_sep: "l \<in> set (py_split sep s) \<Longrightarrow> sep \<notin> set l"
proof (induction s arbitrary: l)
  case Nil
  then show ?case by simp
next
  case (Cons c cs)
  show ?case
  proof (cases "c = sep")
    case True
    with Cons show ?thesis by auto
  next
    case False
    obtain x xs where xs: "py_split sep cs = x # xs"
      using py_split_nonempty [of sep cs] by (cases "py_split sep cs") auto
    have ih: "\<forall>l' \<in> set (x # xs). sep \<notin> set l'"
      using Cons.IH xs by auto
    from Cons.prems False xs have "l = c # x \<or> l \<in> set xs" by auto
    then show ?thesis using ih False by auto
  qed
qed

lemma path_name_no_slash: "47 \<notin> set (path_name p)"
proof -
  have "path_name p = [] \<or> path_name p \<in> set (py_split 47 p)"
  proof (cases "filter (\<lambda>x. x \<noteq> [] \<and> x \<noteq> u ''.'') (py_split 47 p)")
    case Nil
    then show ?thesis by (simp add: path_name_def)
  next
    case (Cons x xs)
    then have "path_name p = last (filter (\<lambda>x. x \<noteq> [] \<and> x \<noteq> u ''.'') (py_split 47 p))"
      by (simp add: path_name_def)
    moreover have "last (filter (\<lambda>x. x \<noteq> [] \<and> x \<noteq> u ''.'') (py_split 47 p))
        \<in> set (filter (\<lambda>x. x \<noteq> [] \<and> x \<noteq> u ''.'') (py_split 47 p))"
      using Cons by (intro last_in_set) simp
    ultimately show ?thesis by auto
  qed
  then show ?thesis using py_split_no_sep [of "path_name p" 47 p] by auto
qed

lemma path_stem_no_slash: "47 \<notin> set (path_stem p)"
  using path_name_no_slash [of p]
  by (auto simp: path_stem_def Let_def dest: in_set_takeD)

lemma join_plain:
  assumes "a \<noteq> []" "last a \<noteq> 47" "47 \<notin> set stem"
  shows "os_path_join a (stem @ u ''.'' @ fmt) = a @ u ''/'' @ stem @ u ''.'' @ fmt"
proof -
  have "\<not> prefix (u ''/'') (stem @ u ''.'' @ fmt)"
    using assms(3) by (cases stem) (simp_all add: u_def)
  moreover have "\<not> suffix (u ''/'') a"
    using assms(1,2) by (simp add: u_def suffix_single)
  ultimately show ?thesis using assms(1) by (simp add: os_path_join_def)
qed

text \<open>
  Claim C6. The output path is the output directory joined with the stem of the input,
  a dot and the format; for a directory that is not empty and does not end in a slash
  that is the directory, a slash, the stem, a dot and the format. Two inputs with the same
  stem therefore get the same output path; both commands carry the overwrite flag \<open>-y\<close>
  and that path as their last argument, and in a run over the two, with an encoder that
  exits with 0, both jobs report success with that one path and nothing is recorded as
  failed.
\<close>

theorem output_file_resolved:
  "output_file cfg f =
     os_path_join (output_dir cfg) (path_stem f @ u ''.'' @ output_format cfg)
   \<and> (output_dir cfg \<noteq> [] \<and> last (output_dir cfg) \<noteq> 47 \<longrightarrow>
        output_file cfg f =
          output_dir cfg @ u ''/'' @ path_stem f @ u ''.'' @ output_format cfg)
   \<and> (path_stem f = path_stem g \<longrightarrow>
        output_file cfg f = output_file cfg g
      \<and> build_cmd cfg f ! 1 = u ''-y'' \<and> build_cmd cfg g ! 1 = u ''-y''
      \<and> last (build_cmd cfg f) = output_file cfg f
      \<and> last (build_cmd cfg g) = output_file cfg f
      \<and> (output_dir_writable w \<and> is_converting w 0 \<and> is_converting w 1
          \<and> subprocess_run w 0 (encoder_call w cfg f) = Completed 0 e0
          \<and> subprocess_run w 1 (encoder_call w cfg g) = Completed 0 e1 \<longrightarrow>
            outcomes_of (events (conversion_worker w cfg [f, g])) =
              [Success (output_file cfg f), Success (output_file cfg f)]
          \<and> converted_files (conversion_worker w cfg [f, g]) = 2
          \<and> failed_files (conversion_worker w cfg [f, g]) = []))"
proof (intro conjI impI)
  show "output_file cfg f =
     os_path_join (output_dir cfg) (path_stem f @ u ''.'' @ output_format cfg)"
    by (simp add: output_file_def)
next
  assume "output_dir cfg \<noteq> [] \<and> last (output_dir cfg) \<noteq> 47"
  then show "output_file cfg f =
          output_dir cfg @ u ''/'' @ path_stem f @ u ''.'' @ output_format cfg"
    by (simp add: output_file_def join_plain path_stem_no_slash)
next
  assume "path_stem f = path_stem g"
  then show "output_file cfg f = output_file cfg g"
    by (simp add: output_file_def)
next
  show "build_cmd cfg f ! 1 = u ''-y''" by (simp add: build_cmd_def)
next
  show "build_cmd cfg g ! 1 = u ''-y''" by (simp add: build_cmd_def)
next
  show "last (build_cmd cfg f) = output_file cfg f" by (simp add: build_cmd_def)
next
  assume "path_stem f = path_stem g"
  then show "last (build_cmd cfg g) = output_file cfg f"
    by (simp add: build_cmd_def output_file_def)
next
  assume same: "path_stem f = path_stem g"
    and run: "output_dir_writable w \<and> is_converting w 0 \<and> is_converting w 1
          \<and> subprocess_run w 0 (encoder_call w cfg f) = Completed 0 e0
          \<and> subprocess_run w 1 (encoder_call w cfg g) = Completed 0 e1"
  have cf: "convert_file w 0 cfg f = Success (output_file cfg f)"
    using run by (auto intro: convert_file_exit0)
  have "convert_file w 1 cfg g = Success (output_file cfg g)"
    using run by (auto intro: convert_file_exit0)
  with same have cg: "convert_file w (Suc 0) cfg g = Success (output_file cfg f)"
    by (simp add: output_file_def)
  have loop: "worker_loop w cfg 2 0 [f, g] st =
      process_job w cfg 2 (Suc 0) g (process_job w cfg 2 0 f st)" for st
    using run by simp
  show "outcomes_of (events (conversion_worker w cfg [f, g])) =
              [Success (output_file cfg f), Success (output_file cfg f)]"
    using run
    by (simp add: conversion_worker_def Let_def loop log_fields process_job_events
        outcomes_of_append job_events_outcomes cf cg)
  show "converted_files (conversion_worker w cfg [f, g]) = 2"
    using run
    by (simp add: conversion_worker_def Let_def loop log_fields process_job_converted cf cg)
  show "failed_files (conversion_worker w cfg [f, g]) = []"
    using run
    by (simp add: conversion_worker_def Let_def loop log_fields process_job_failed cf cg)
qed


lemma song_stems:
  "path_stem (u ''/x/song.wav'') = u ''song''" "path_stem (u ''/y/song.flac'') = u ''song''"
  by (simp_all add: path_stem_def path_name_def u_def Let_def)

lemma sample_dir: "output_dir sample_cfg = u ''out''" "output_format sample_cfg = u ''mp3''"
  by (simp_all add: sample_cfg_def)

text \<open>Two different files named \<open>song\<close>, both converted to \<open>out/song.mp3\<close>.\<close>

theorem output_file_resolved_witness:
  "u ''/x/song.wav'' \<noteq> u ''/y/song.flac''
   \<and> path_stem (u ''/x/song.wav'') = path_stem (u ''/y/song.flac'')
   \<and> output_file sample_cfg (u ''/x/song.wav'') = u ''out/song.mp3''
   \<and> output_file sample_cfg (u ''/y/song.flac'') = u ''out/song.mp3''
   \<and> outcomes_of (events (conversion_worker sample_world sample_cfg
         [u ''/x/song.wav'', u ''/y/song.flac''])) =
       [Success (u ''out/song.mp3''), Success (u ''out/song.mp3'')]
   \<and> failed_files (conversion_worker sample_world sample_cfg
         [u ''/x/song.wav'', u ''/y/song.flac'']) = []"
proof -
  note t = output_file_resolved [of sample_cfg "u ''/x/song.wav''" "u ''/y/song.flac''"
      sample_world "[]" "[]"]
  have d: "output_dir sample_cfg \<noteq> [] \<and> last (output_dir sample_cfg) \<noteq> 47"
    by (simp add: sample_dir u_def)
  have s: "path_stem (u ''/x/song.wav'') = path_stem (u ''/y/song.flac'')"
    by (simp only: song_stems)
  have r: "output_dir_writable sample_world \<and> is_converting sample_world 0
      \<and> is_converting sample_world 1
      \<and> subprocess_run sample_world 0
           (encoder_call sample_world sample_cfg (u ''/x/song.wav'')) = Completed 0 []
      \<and> subprocess_run sample_world 1
           (encoder_call sample_world sample_cfg (u ''/y/song.flac'')) = Completed 0 []"
    by (simp add: sample_world_def)
  have n: "u ''/x/song.wav'' \<noteq> u ''/y/song.flac''" by (simp add: u_def)
  have "output_file sample_cfg (u ''/x/song.wav'') =
      output_dir sample_cfg @ u ''/'' @ path_stem (u ''/x/song.wav'') @ u ''.'' @
      output_format sample_cfg"
    by (rule mp [OF t [THEN conjunct2, THEN conjunct1] d])
  then have p: "output_file sample_cfg (u ''/x/song.wav'') = u ''out/song.mp3''"
    by (simp only: song_stems sample_dir) (simp add: u_def)
  note same = mp [OF t [THEN conjunct2, THEN conjunct2] s]
  have q: "output_file sample_cfg (u ''/y/song.flac'') = u ''out/song.mp3''"
    using same [THEN conjunct1] p by simp
  note run = mp [OF same [THEN conjunct2, THEN conjunct2, THEN conjunct2, THEN conjunct2,
        THEN conjunct2] r]
  have o: "outcomes_of (events (conversion_worker sample_world sample_cfg
         [u ''/x/song.wav'', u ''/y/song.flac''])) =
       [Success (u ''out/song.mp3''), Success (u ''out/song.mp3'')]"
    using run [THEN conjunct1] by (simp only: p)
  from n s p q o run [THEN conjunct2, THEN conjunct2] show ?thesis
    by (intro conjI)
qed

section \<open>Results of one conversion\<close>

text \<open>
  Claim C8. A conversion calls the encoder once, with the built command, a timeout of 300
  seconds and the standard error captured, and its result depends on the world only
  through what that call does. An exit code of 0 gives the success with the resolved
  output path, a timeout gives the timeout failure, and any other exception of the call,
  such as a program that cannot be started, gives the unexpected error with the text of
  the exception.
\<close>

theorem convert_file_results:
  "cmd (encoder_call w cfg f) = build_cmd cfg f
   \<and> timeout_seconds (encoder_call w cfg f) = 300
   \<and> capture_stderr (encoder_call w cfg f)
   \<and> (subprocess_run w i (encoder_call w cfg f) =
          subprocess_run w' i (encoder_call w' cfg f) \<longrightarrow>
        convert_file w i cfg f = convert_file w' i cfg f)
   \<and> (subprocess_run w i (encoder_call w cfg f) = Completed 0 err \<longrightarrow>
        convert_file w i cfg f = Success (output_file cfg f))
   \<and> (subprocess_run w i (encoder_call w cfg f) = TimeoutExpired \<longrightarrow>
        convert_file w i cfg f = Failure Timeout)
   \<and> (subprocess_run w i (encoder_call w cfg f) = Raised msg \<longrightarrow>
        convert_file w i cfg f = Failure (UnexpectedError msg))"
  by (simp add: convert_file_def encoder_call_def)

lemma sample_run_flags:
  "subprocess_run (sample_world\<lparr>subprocess_run := r\<rparr>) = r"
  "subprocess_run sample_world i a = Completed 0 []"
  by (simp_all add: sample_world_def)

text \<open>An encoder that exits with 0, one that times out, one that cannot be started.\<close>

theorem convert_file_results_witness:
  "convert_file sample_world 0 sample_cfg (u ''a.wav'') = Success (u ''out/a.mp3'')
   \<and> convert_file (sample_world\<lparr>subprocess_run := (\<lambda>i a. TimeoutExpired)\<rparr>) 0 sample_cfg
        (u ''a.wav'') = Failure Timeout
   \<and> convert_file (sample_world\<lparr>subprocess_run := (\<lambda>i a. Raised (u ''No such file''))\<rparr>) 0
        sample_cfg (u ''a.wav'') = Failure (UnexpectedError (u ''No such file''))
   \<and> convert_file (sample_world\<lparr>os_name_nt := True\<rparr>) 0 sample_cfg (u ''a.wav'') =
       convert_file sample_world 0 sample_cfg (u ''a.wav'')"
proof -
  let ?wt = "sample_world\<lparr>subprocess_run := (\<lambda>i a. TimeoutExpired)\<rparr>"
  let ?wr = "sample_world\<lparr>subprocess_run := (\<lambda>i a. Raised (u ''No such file''))\<rparr>"
  let ?wn = "sample_world\<lparr>os_name_nt := True\<rparr>"
  have a: "subprocess_run sample_world 0 (encoder_call sample_world sample_cfg (u ''a.wav'')) =
      Completed 0 []"
    by (rule sample_run_flags)
  have b: "subprocess_run ?wt 0 (encoder_call ?wt sample_cfg (u ''a.wav'')) = TimeoutExpired"
    by (simp only: sample_run_flags)
  have c: "subprocess_run ?wr 0 (encoder_call ?wr sample_cfg (u ''a.wav'')) =
      Raised (u ''No such file'')"
    by (simp only: sample_run_flags)
  have d: "subprocess_run ?wn 0 (encoder_call ?wn sample_cfg (u ''a.wav'')) =
      subprocess_run sample_world 0 (encoder_call sample_world sample_cfg (u ''a.wav''))"
    by (simp add: sample_world_def)
  note t1 = convert_file_results [of sample_world sample_cfg "u ''a.wav''" 0 sample_world
      "[]" "[]"]
  note t2 = convert_file_results [of ?wt sample_cfg "u ''a.wav''" 0 ?wt "[]" "[]"]
  note t3 = convert_file_results [of ?wr sample_cfg "u ''a.wav''" 0 ?wr "[]"
      "u ''No such file''"]
  note t4 = convert_file_results [of ?wn sample_cfg "u ''a.wav''" 0 sample_world "[]" "[]"]
  have "convert_file sample_world 0 sample_cfg (u ''a.wav'') =
      Success (output_file sample_cfg (u ''a.wav''))"
    by (rule mp [OF t1 [THEN conjunct2, THEN conjunct2, THEN conjunct2, THEN conjunct2,
        THEN conjunct1] a])
  then have r1: "convert_file sample_world 0 sample_cfg (u ''a.wav'') = Success (u ''out/a.mp3'')"
    by (simp only: sample_paths)
  have r2: "convert_file ?wt 0 sample_cfg (u ''a.wav'') = Failure Timeout"
    by (rule mp [OF t2 [THEN conjunct2, THEN conjunct2, THEN conjunct2, THEN conjunct2,
        THEN conjunct2, THEN conjunct1] b])
  have r3: "convert_file ?wr 0 sample_cfg (u ''a.wav'') =
      Failure (UnexpectedError (u ''No such file''))"
    by (rule mp [OF t3 [THEN conjunct2, THEN conjunct2, THEN conjunct2, THEN conjunct2,
        THEN conjunct2, THEN conjunct2] c])
  have r4: "convert_file ?wn 0 sample_cfg (u ''a.wav'') =
      convert_file sample_world 0 sample_cfg (u ''a.wav'')"
    by (rule mp [OF t4 [THEN conjunct2, THEN conjunct2, THEN conjunct2, THEN conjunct1] d])
  from r1 r2 r3 r4 show ?thesis by (intro conjI)
qed

section \<open>Blank error text\<close>

lemma py_in_subset: "py_in needle hay \<Longrightarrow> set needle \<subseteq> set hay"
proof (induction hay)
  case Nil
  then show ?case by simp
next
  case (Cons c cs)
  from Cons.prems have "prefix needle (c # cs) \<or> py_in needle cs" by simp
  then show ?case
  proof
    assume "prefix needle (c # cs)"
    then show ?thesis by (rule set_mono_prefix)
  next
    assume "py_in needle cs"
    then have "set needle \<subseteq> set cs" by (rule Cons.IH)
    then show ?thesis by auto
  qed
qed

lemma blank_not_in:
  assumes "\<forall>c \<in> set s. is_space c" and "x \<in> set needle" and "\<not> is_space x"
  shows "\<not> py_in needle s"
  using assms py_in_subset [of needle s] by auto

lemma blank_strip:
  assumes "\<forall>c \<in> set s. is_space c"
  shows "py_strip s = []"
proof -
  have d: "dropWhile is_space s = []" using assms by (simp only: dropWhile_eq_Nil_conv)
  show ?thesis by (simp only: py_strip_def d rev.simps dropWhile.simps)
qed

lemma blank_lines:
  assumes "\<forall>c \<in> set s. is_space c"
  shows "filter (\<lambda>l. py_strip l \<noteq> []) (py_split 10 s) = []"
proof -
  have "py_strip l = []" if "l \<in> set (py_split 10 s)" for l
    using py_split_subset [OF that] assms by (intro blank_strip) auto
  then show ?thesis by (simp add: filter_empty_conv)
qed

lemma needles_not_blank:
  "73 \<in> set (u ''Invalid data'')" "80 \<in> set (u ''Permission denied'')"
  "78 \<in> set (u ''No space left'')" "69 \<in> set (u ''Error'')"
  "\<not> is_space 73" "\<not> is_space 80" "\<not> is_space 78" "\<not> is_space 69"
  by (simp_all add: u_def is_space_def)

text \<open>
  Claim C10. When the encoder exits with a code other than 0 and its error text is not
  empty but all white space, the text has none of the four substrings, the choice of the
  last line that is not blank indexes an empty list, and the job ends as an unexpected
  error with the text of that \<open>IndexError\<close>, not as an unknown failure.
\<close>

theorem blank_stderr_unexpected:
  assumes nonempty: "error_msg \<noteq> []"
    and blank: "\<forall>c \<in> set error_msg. is_space c"
    and rc: "returncode \<noteq> 0"
    and run: "subprocess_run w i (encoder_call w cfg f) = Completed returncode error_msg"
  shows "\<not> py_in (u ''Invalid data'') error_msg
    \<and> \<not> py_in (u ''Permission denied'') error_msg
    \<and> \<not> py_in (u ''No space left'') error_msg
    \<and> \<not> py_in (u ''Error'') error_msg
    \<and> last_line error_msg = Inl IndexError
    \<and> classify_stderr error_msg = Inl IndexError
    \<and> convert_file w i cfg f = Failure (UnexpectedError (u ''list index out of range''))"
proof -
  have n1: "\<not> py_in (u ''Invalid data'') error_msg"
    by (rule blank_not_in [OF blank needles_not_blank(1) needles_not_blank(5)])
  have n2: "\<not> py_in (u ''Permission denied'') error_msg"
    by (rule blank_not_in [OF blank needles_not_blank(2) needles_not_blank(6)])
  have n3: "\<not> py_in (u ''No space left'') error_msg"
    by (rule blank_not_in [OF blank needles_not_blank(3) needles_not_blank(7)])
  have n4: "\<not> py_in (u ''Error'') error_msg"
    by (rule blank_not_in [OF blank needles_not_blank(4) needles_not_blank(8)])
  have l: "last_line error_msg = Inl IndexError"
    using nonempty by (simp add: last_line_def blank_lines [OF blank])
  have c: "classify_stderr error_msg = Inl IndexError"
    by (simp add: classify_stderr_def n1 n2 n3 n4 l)
  have "convert_file w i cfg f = Failure (UnexpectedError (u ''list index out of range''))"
    using rc by (simp add: convert_file_def run c)
  with n1 n2 n3 n4 l c show ?thesis by (intro conjI)
qed

text \<open>An error text of a space and a newline.\<close>

theorem blank_stderr_unexpected_witness:
  "convert_file (sample_world\<lparr>subprocess_run := (\<lambda>i a. Completed 1 [32, 10])\<rparr>) 0 sample_cfg
     (u ''a.wav'') = Failure (UnexpectedError (u ''list index out of range''))
   \<and> classify_stderr [32, 10] = Inl IndexError"
proof -
  let ?w = "sample_world\<lparr>subprocess_run := (\<lambda>i a. Completed 1 [32, 10])\<rparr>"
  have h1: "[32, 10] \<noteq> ([] :: pystr)" by simp
  have h2: "\<forall>c \<in> set [32, 10]. is_space c" by (simp add: is_space_def)
  have h3: "(1 :: int) \<noteq> 0" by simp
  have h4: "subprocess_run ?w 0 (encoder_call ?w sample_cfg (u ''a.wav'')) = Completed 1 [32, 10]"
    by (simp only: sample_run_flags)
  note t = blank_stderr_unexpected [OF h1 h2 h3 h4]
  from t show ?thesis by simp
qed

section \<open>The reason for a failure\<close>

lemma find_error_line_first:
  assumes "\<forall>x \<in> set pre. \<not> (py_in (u ''Error'') x \<and> \<not> py_in (u ''ffmpeg'') (py_lower x))"
    and "py_in (u ''Error'') l" and "\<not> py_in (u ''ffmpeg'') (py_lower l)"
  shows "find_error_line (pre @ l # post) = Some l"
  using assms by (induction pre) auto

lemma find_error_line_none:
  assumes "\<forall>x \<in> set ls. \<not> (py_in (u ''Error'') x \<and> \<not> py_in (u ''ffmpeg'') (py_lower x))"
  shows "find_error_line ls = None"
  using assms by (induction ls) auto

lemma last_filter_decomp:
  assumes "P l" and "\<forall>x \<in> set post. \<not> P x"
  shows "filter P (pre @ l # post) = filter P pre @ [l]"
  using assms by (simp add: filter_empty_conv)

lemma last_line_decomp:
  assumes "py_split 10 e = pre @ l # post" and "py_strip l \<noteq> []"
    and "\<forall>x \<in> set post. py_strip x = []"
  shows "last_line e = Inr l"
proof -
  have ne: "e \<noteq> []"
  proof
    assume "e = []"
    with assms(1) have "pre @ l # post = [[]]" by simp
    then have "l = []" by (cases pre) auto
    with assms(2) show False by (simp add: py_strip_def)
  qed
  have "filter (\<lambda>l. py_strip l \<noteq> []) (py_split 10 e) =
      filter (\<lambda>l. py_strip l \<noteq> []) pre @ [l]"
    unfolding assms(1) using assms(2,3) by (intro last_filter_decomp) auto
  then show ?thesis using ne
    by (cases "filter (\<lambda>l. py_strip l \<noteq> []) pre") (simp_all add: last_line_def)
qed

text \<open>
  Claim C1, amended. When the encoder exits with a code other than 0, the reason for the
  failure is read off the error text by these rules, the first that applies: the text
  contains \<open>Invalid data\<close>; else it contains \<open>Permission denied\<close>; else it contains
  \<open>No space left\<close>; else it contains \<open>Error\<close>, and the reason is an encoder error that
  carries, stripped of surrounding white space, the first line that contains \<open>Error\<close> and
  does not contain \<open>ffmpeg\<close> in any capitalisation, or the last line of the text when
  there is no such line; else the reason is an unknown failure that carries a fixed text
  when the error text is empty, and the last line that is not blank, as it is, when there
  is one. A line is given by the lines before it and after it.
\<close>

theorem classify_stderr_order:
  "(subprocess_run w i (encoder_call w cfg f) = Completed rc e \<and> rc \<noteq> 0
      \<and> classify_stderr e = Inr r \<longrightarrow> convert_file w i cfg f = Failure r)
   \<and> (py_in (u ''Invalid data'') e \<longrightarrow> classify_stderr e = Inr InvalidInputData)
   \<and> (\<not> py_in (u ''Invalid data'') e \<and> py_in (u ''Permission denied'') e \<longrightarrow>
        classify_stderr e = Inr PermissionDenied)
   \<and> (\<not> py_in (u ''Invalid data'') e \<and> \<not> py_in (u ''Permission denied'') e
      \<and> py_in (u ''No space left'') e \<longrightarrow>
        classify_stderr e = Inr DiskFull)
   \<and> (\<not> py_in (u ''Invalid data'') e \<and> \<not> py_in (u ''Permission denied'') e
      \<and> \<not> py_in (u ''No space left'') e \<and> py_in (u ''Error'') e
      \<and> py_split 10 e = pre @ l # post
      \<and> (\<forall>x \<in> set pre. \<not> (py_in (u ''Error'') x \<and> \<not> py_in (u ''ffmpeg'') (py_lower x)))
      \<and> py_in (u ''Error'') l \<and> \<not> py_in (u ''ffmpeg'') (py_lower l) \<longrightarrow>
        classify_stderr e = Inr (EncoderError (py_strip l)))
   \<and> (\<not> py_in (u ''Invalid data'') e \<and> \<not> py_in (u ''Permission denied'') e
      \<and> \<not> py_in (u ''No space left'') e \<and> py_in (u ''Error'') e
      \<and> (\<forall>x \<in> set (py_split 10 e).
            \<not> (py_in (u ''Error'') x \<and> \<not> py_in (u ''ffmpeg'') (py_lower x))) \<longrightarrow>
        classify_stderr e = Inr (EncoderError (py_strip (last (py_split 10 e)))))
   \<and> (e = [] \<longrightarrow> classify_stderr e = Inr (UnknownFailure unknown_error_text))
   \<and> (\<not> py_in (u ''Invalid data'') e \<and> \<not> py_in (u ''Permission denied'') e
      \<and> \<not> py_in (u ''No space left'') e \<and> \<not> py_in (u ''Error'') e
      \<and> py_split 10 e = pre @ l # post \<and> py_strip l \<noteq> []
      \<and> (\<forall>x \<in> set post. py_strip x = []) \<longrightarrow>
        classify_stderr e = Inr (UnknownFailure l))"
proof (intro conjI impI)
  assume "subprocess_run w i (encoder_call w cfg f) = Completed rc e \<and> rc \<noteq> 0
      \<and> classify_stderr e = Inr r"
  then show "convert_file w i cfg f = Failure r"
    by (simp add: convert_file_def)
next
  assume "py_in (u ''Invalid data'') e"
  then show "classify_stderr e = Inr InvalidInputData"
    by (simp add: classify_stderr_def)
next
  assume "\<not> py_in (u ''Invalid data'') e \<and> py_in (u ''Permission denied'') e"
  then show "classify_stderr e = Inr PermissionDenied"
    by (simp add: classify_stderr_def)
next
  assume "\<not> py_in (u ''Invalid data'') e \<and> \<not> py_in (u ''Permission denied'') e
      \<and> py_in (u ''No space left'') e"
  then show "classify_stderr e = Inr DiskFull"
    by (simp add: classify_stderr_def)
next
  assume a: "\<not> py_in (u ''Invalid data'') e \<and> \<not> py_in (u ''Permission denied'') e
      \<and> \<not> py_in (u ''No space left'') e \<and> py_in (u ''Error'') e
      \<and> py_split 10 e = pre @ l # post
      \<and> (\<forall>x \<in> set pre. \<not> (py_in (u ''Error'') x \<and> \<not> py_in (u ''ffmpeg'') (py_lower x)))
      \<and> py_in (u ''Error'') l \<and> \<not> py_in (u ''ffmpeg'') (py_lower l)"
  then have "find_error_line (pre @ l # post) = Some l"
    by (intro find_error_line_first) simp_all
  with a have "find_error_line (py_split 10 e) = Some l"
    by simp
  with a show "classify_stderr e = Inr (EncoderError (py_strip l))"
    by (simp add: classify_stderr_def)
next
  assume a: "\<not> py_in (u ''Invalid data'') e \<and> \<not> py_in (u ''Permission denied'') e
      \<and> \<not> py_in (u ''No space left'') e \<and> py_in (u ''Error'') e
      \<and> (\<forall>x \<in> set (py_split 10 e).
            \<not> (py_in (u ''Error'') x \<and> \<not> py_in (u ''ffmpeg'') (py_lower x)))"
  then have "find_error_line (py_split 10 e) = None"
    by (intro find_error_line_none) simp
  with a show "classify_stderr e = Inr (EncoderError (py_strip (last (py_split 10 e))))"
    by (simp add: classify_stderr_def)
next
  assume "e = []"
  then show "classify_stderr e = Inr (UnknownFailure unknown_error_text)"
    by (simp add: classify_stderr_def last_line_def u_def)
next
  assume a: "\<not> py_in (u ''Invalid data'') e \<and> \<not> py_in (u ''Permission denied'') e
      \<and> \<not> py_in (u ''No space left'') e \<and> \<not> py_in (u ''Error'') e
      \<and> py_split 10 e = pre @ l # post \<and> py_strip l \<noteq> []
      \<and> (\<forall>x \<in> set post. py_strip x = [])"
  then have "last_line e = Inr l"
    by (intro last_line_decomp [of e pre l post]) simp_all
  with a show "classify_stderr e = Inr (UnknownFailure l)"
    by (simp add: classify_stderr_def)
qed


lemmas text_eval = u_def py_lower_def lower_cp_def py_strip_def is_space_def

text \<open>
  Three error texts on which the reason is not what the claim describes: one whose only
  line with \<open>Error\<close> is the encoder's own, so that the encoder error carries a line
  without \<open>Error\<close>; one whose line is carried without its leading blanks; and the empty
  text, which has no line that is not empty.
\<close>

theorem encoder_error_counterexample:
  "classify_stderr (u ''ffmpeg Error'' @ [10] @ u ''foo'') = Inr (EncoderError (u ''foo''))
   \<and> \<not> py_in (u ''Error'') (u ''foo'')
   \<and> classify_stderr (u ''  Error x'') = Inr (EncoderError (u ''Error x''))
   \<and> u ''  Error x'' \<noteq> u ''Error x''
   \<and> classify_stderr [] = Inr (UnknownFailure unknown_error_text)
   \<and> py_split 10 [] = [[]]"
  by (simp add: classify_stderr_def last_line_def text_eval)


text \<open>One error text for each rule.\<close>

theorem classify_stderr_order_witness:
  "convert_file (sample_world\<lparr>subprocess_run :=
       (\<lambda>i a. Completed 1 (u ''Permission denied''))\<rparr>) 0 sample_cfg (u ''a.wav'') =
     Failure PermissionDenied
   \<and> classify_stderr (u ''x: Invalid data found'') = Inr InvalidInputData
   \<and> classify_stderr (u ''Permission denied'') = Inr PermissionDenied
   \<and> classify_stderr (u ''No space left on device'') = Inr DiskFull
   \<and> classify_stderr (u ''ffmpeg version 6'' @ [10] @ u '' Error opening input'' @ [10] @
        u ''more'') = Inr (EncoderError (u ''Error opening input''))
   \<and> classify_stderr (u ''ffmpeg Error'' @ [10] @ u ''foo'') = Inr (EncoderError (u ''foo''))
   \<and> classify_stderr [] = Inr (UnknownFailure unknown_error_text)
   \<and> classify_stderr (u ''a'' @ [10] @ u '' b '' @ [10]) = Inr (UnknownFailure (u '' b ''))"
proof -
  let ?w = "sample_world\<lparr>subprocess_run := (\<lambda>i a. Completed 1 (u ''Permission denied''))\<rparr>"
  have c2: "classify_stderr (u ''Permission denied'') = Inr PermissionDenied"
    using classify_stderr_order [of w i cfg f rc "u ''Permission denied''"]
    by (simp add: text_eval)
  have run: "subprocess_run ?w 0 (encoder_call ?w sample_cfg (u ''a.wav'')) =
      Completed 1 (u ''Permission denied'')"
    by (simp only: sample_run_flags)
  have c0: "convert_file ?w 0 sample_cfg (u ''a.wav'') = Failure PermissionDenied"
    using classify_stderr_order [of ?w 0 sample_cfg "u ''a.wav''" 1 "u ''Permission denied''"
        PermissionDenied] run c2
    by simp
  have c1: "classify_stderr (u ''x: Invalid data found'') = Inr InvalidInputData"
    using classify_stderr_order [of w i cfg f rc "u ''x: Invalid data found''"]
    by (simp add: text_eval)
  have c3: "classify_stderr (u ''No space left on device'') = Inr DiskFull"
    using classify_stderr_order [of w i cfg f rc "u ''No space left on device''"]
    by (simp add: text_eval)
  have c4: "classify_stderr (u ''ffmpeg version 6'' @ [10] @ u '' Error opening input'' @ [10] @
        u ''more'') = Inr (EncoderError (u ''Error opening input''))"
    using classify_stderr_order [of w i cfg f rc
        "u ''ffmpeg version 6'' @ [10] @ u '' Error opening input'' @ [10] @ u ''more''" r
        "[u ''ffmpeg version 6'']" "u '' Error opening input''" "[u ''more'']"]
    by (simp add: text_eval)
  have c5: "classify_stderr (u ''ffmpeg Error'' @ [10] @ u ''foo'') =
      Inr (EncoderError (u ''foo''))"
    using classify_stderr_order [of w i cfg f rc "u ''ffmpeg Error'' @ [10] @ u ''foo''"]
    by (simp add: text_eval)
  have c6: "classify_stderr [] = Inr (UnknownFailure unknown_error_text)"
    using classify_stderr_order [of w i cfg f rc "[]"]
    by simp
  have c7: "classify_stderr (u ''a'' @ [10] @ u '' b '' @ [10]) = Inr (UnknownFailure (u '' b ''))"
    using classify_stderr_order [of w i cfg f rc "u ''a'' @ [10] @ u '' b '' @ [10]" r
        "[u ''a'']" "u '' b ''" "[[]]"]
    by (simp add: text_eval)
  from c0 c1 c2 c3 c4 c5 c6 c7 show ?thesis by (intro conjI)
qed

end
